theory Spec2Isabelle
  imports Main "HOL-Library.Sublist"
begin

section \<open>The standard markup loader of \<^verbatim>\<open>scripts/dialent/standard.py\<close>\<close>

text \<open>
  The class \<^verbatim>\<open>Standard\<close> loads one annotated document from five export files
  (\<^verbatim>\<open>.tokens\<close>, \<^verbatim>\<open>.spans\<close>, \<^verbatim>\<open>.objects\<close>, \<^verbatim>\<open>.coref\<close>, \<^verbatim>\<open>.txt\<close>) and derives typed
  token sets from the loaded mentions. Each method is embedded as a HOL function over an
  explicit object state; every \<^verbatim>\<open>raise\<close> of the source is a value of the type
  \<open>error\<close>. A method that raises after it has already assigned attributes returns the
  error together with the state reached, because the constructor keeps that state.
\<close>

subsection \<open>Exceptions\<close>

text \<open>
  The exceptions the module can raise. The first six are the \<^verbatim>\<open>Exception(...)\<close> objects
  the module builds itself, one constructor per message, carrying the values formatted
  into the message (line index and file name). The others are the built-in exception
  classes raised by the operations the module uses; all of them are subclasses of
  \<^verbatim>\<open>Exception\<close>.
\<close>

datatype dict_key = Num int | Str string

datatype error =
    WrongLength nat string
  | MissingSymbol string nat string
  | MissingLeftParts nat string
  | MissingRightParts nat string
  | MissingSpans nat string
  | InvalidId nat string error
  | OSError string
  | ValueError
  | KeyError dict_key
  | TypeError
  | AttributeError string
  | AssertionError
  | LibraryError string

subsection \<open>Python built-ins used by the module\<close>

text \<open>
  Strings are lists of characters. The module only tests strings for emptiness, splits
  them at separators and converts decimal numerals, so nothing depends on how a
  character is encoded.
\<close>

definition newline :: char where
  "newline = CHR 0x0A"

text \<open>
  Iterating over a file opened in text mode yields its lines one by one; each line keeps
  its terminating newline, and a last line without one is yielded as it is. The file
  contents are the decoded text, with line endings already translated to \<open>newline\<close>.
\<close>

fun lines_from :: "string \<Rightarrow> string \<Rightarrow> string list" where
  "lines_from cur [] = (if cur = [] then [] else [cur])"
| "lines_from cur (c # cs) =
     (if c = newline then (cur @ [c]) # lines_from [] cs else lines_from (cur @ [c]) cs)"

definition file_lines :: "string \<Rightarrow> string list" where
  "file_lines contents = lines_from [] contents"

text \<open>
  \<^verbatim>\<open>s.split(sep)\<close>: the pieces of \<open>s\<close> between the non-overlapping occurrences of
  \<open>sep\<close>, found from the left. An empty separator raises \<^verbatim>\<open>ValueError\<close>.
\<close>

function split_from :: "string \<Rightarrow> string \<Rightarrow> string \<Rightarrow> string list" where
  "split_from sep cur [] = [cur]"
| "split_from sep cur (c # cs) =
     (if sep \<noteq> [] \<and> prefix sep (c # cs)
      then cur # split_from sep [] (drop (length sep) (c # cs))
      else split_from sep (cur @ [c]) cs)"
  by pat_completeness auto
termination
  by (relation "measure (\<lambda>(sep, cur, s). length s)") auto

definition str_split :: "string \<Rightarrow> string \<Rightarrow> error + string list" where
  "str_split sep s = (if sep = [] then Inl ValueError else Inr (split_from sep [] s))"

text \<open>\<^verbatim>\<open>s.strip(chars)\<close> removes the leading and trailing characters that are in \<open>chars\<close>.\<close>

definition str_strip :: "string \<Rightarrow> string \<Rightarrow> string" where
  "str_strip chars s =
     rev (dropWhile (\<lambda>c. c \<in> set chars) (rev (dropWhile (\<lambda>c. c \<in> set chars) s)))"

text \<open>\<^verbatim>\<open>sep.join(xs)\<close>.\<close>

fun str_join :: "string \<Rightarrow> string list \<Rightarrow> string" where
  "str_join sep [] = []"
| "str_join sep [x] = x"
| "str_join sep (x # y # ys) = x @ sep @ str_join sep (y # ys)"

text \<open>
  The slices \<^verbatim>\<open>xs[:n]\<close> and \<^verbatim>\<open>xs[n:]\<close>; a negative \<open>n\<close> counts from the end of the list.
\<close>

definition slice_to :: "int \<Rightarrow> 'a list \<Rightarrow> 'a list" where
  "slice_to n xs = (if 0 \<le> n then take (nat n) xs else take (nat (int (length xs) + n)) xs)"

definition slice_from :: "int \<Rightarrow> 'a list \<Rightarrow> 'a list" where
  "slice_from n xs = (if 0 \<le> n then drop (nat n) xs else drop (nat (int (length xs) + n)) xs)"

text \<open>
  \<^verbatim>\<open>int(s)\<close> on a string, for numerals written with the digits \<open>0\<close> to \<open>9\<close>: surrounding
  white space is dropped, one sign is allowed, and single underscores may separate
  digits. Every other string raises \<^verbatim>\<open>ValueError\<close>, here \<open>None\<close>. A character stands for
  a code point below 256; the white space among them is the tabulator to the carriage
  return, the four separators \<open>0x1C\<close> to \<open>0x1F\<close>, the space, the next-line character
  and the no-break space.
\<close>

definition whitespace :: string where
  "whitespace =
     [CHR 0x09, CHR 0x0A, CHR 0x0B, CHR 0x0C, CHR 0x0D, CHR 0x1C, CHR 0x1D, CHR 0x1E, CHR 0x1F,
      CHR '' '', CHR 0x85, CHR 0xA0]"

definition is_digit :: "char \<Rightarrow> bool" where
  "is_digit c = (c \<in> set ''0123456789'')"

definition digit_value :: "char \<Rightarrow> nat" where
  "digit_value c = of_char c - 48"

fun int_digits :: "nat \<Rightarrow> string \<Rightarrow> nat option" where
  "int_digits acc [] = Some acc"
| "int_digits acc [c] = (if is_digit c then Some (10 * acc + digit_value c) else None)"
| "int_digits acc (c # d # cs) =
     (if c = CHR ''_'' then (if is_digit d then int_digits acc (d # cs) else None)
      else if is_digit c then int_digits (10 * acc + digit_value c) (d # cs)
      else None)"

definition unsigned_int :: "string \<Rightarrow> nat option" where
  "unsigned_int s =
     (case s of [] \<Rightarrow> None | c # cs \<Rightarrow> if is_digit c then int_digits 0 s else None)"

definition py_int :: "string \<Rightarrow> int option" where
  "py_int s =
     (case str_strip whitespace s of
        [] \<Rightarrow> None
      | c # cs \<Rightarrow>
          if c = CHR ''-'' then map_option (\<lambda>n. - int n) (unsigned_int cs)
          else if c = CHR ''+'' then map_option int (unsigned_int cs)
          else map_option int (unsigned_int (c # cs)))"

text \<open>
  A list comprehension \<^verbatim>\<open>[f(x) for x in xs]\<close> whose \<open>f\<close> may raise: the first error
  ends it.
\<close>

fun map_raise :: "('a \<Rightarrow> error + 'b) \<Rightarrow> 'a list \<Rightarrow> error + 'b list" where
  "map_raise f [] = Inr []"
| "map_raise f (x # xs) =
     (case f x of
        Inl e \<Rightarrow> Inl e
      | Inr y \<Rightarrow> (case map_raise f xs of Inl e \<Rightarrow> Inl e | Inr ys \<Rightarrow> Inr (y # ys)))"

definition int_of :: "string \<Rightarrow> error + int" where
  "int_of s = (case py_int s of None \<Rightarrow> Inl ValueError | Some n \<Rightarrow> Inr n)"

text \<open>\<^verbatim>\<open>d[k]\<close> on a dictionary raises \<^verbatim>\<open>KeyError\<close> for a missing key.\<close>

definition dict_get :: "(int \<rightharpoonup> 'v) \<Rightarrow> int \<Rightarrow> error + 'v" where
  "dict_get d k = (case d k of None \<Rightarrow> Inl (KeyError (Num k)) | Some v \<Rightarrow> Inr v)"

text \<open>
  \<^verbatim>\<open>dict([(key(x), x) for x in xs])\<close>: later entries replace earlier ones with the same
  key.
\<close>

definition dict_of :: "('v \<Rightarrow> int) \<Rightarrow> 'v list \<Rightarrow> (int \<rightharpoonup> 'v)" where
  "dict_of key xs = fold (\<lambda>x d. d(key x \<mapsto> x)) xs Map.empty"

subsection \<open>The configuration\<close>

text \<open>
  The constants of \<^verbatim>\<open>dialent.config.Config\<close> that the module reads. Their values are not
  part of the module, so they are parameters of the model.
\<close>

record config =
  DEFAULT_DELIMITER :: string
  QUOTECHAR :: string
  TOKEN_LINE_LENGTH :: nat
  SPAN_FILE_SEPARATOR :: string
  COMMENT_SEPARATOR :: string


text \<open>
  The external collaborators of the module, beside the constants: \<^verbatim>\<open>csv.reader\<close> of the
  standard library, and the way \<^verbatim>\<open>Entity.fromStandard\<close> reads mention ids out of a block
  of the coreference file. \<open>csv_reader delimiter quotechar contents\<close> gives the rows the
  reader yields, in order, and the exception it raises after them, if any.
\<close>

record env = config +
  csv_reader :: "string \<Rightarrow> string \<Rightarrow> string \<Rightarrow> string list list \<times> error option"
  entity_refs :: "string \<Rightarrow> error + int list"

text \<open>The files that can be opened, by name, with their contents.\<close>

type_synonym files = "string \<Rightarrow> string option"

subsection \<open>Tokens and spans\<close>

text \<open>
  Modelled from the spec: the class \<^verbatim>\<open>Token\<close> of \<^verbatim>\<open>dialent.objects\<close>, which is not part of
  the module. A token has a unique id, a character start offset, a character length and
  its literal text; \<open>prev\<close> and \<open>next\<close> are references to other tokens, unset when the
  token is built. Token objects are mutated after they have been stored in a list and in
  a dictionary, so they live in a heap (a list of tokens) and are referred to by their
  address, the position in the heap.
\<close>

record token =
  token_id :: int
  token_start :: int
  token_length :: int
  token_text :: string
  token_prev :: "nat option"
  token_next :: "nat option"

definition Token_init :: "string list \<Rightarrow> error + token" where
  "Token_init args =
     (case args of
        [i, s, l, t] \<Rightarrow>
          (case int_of i of Inl e \<Rightarrow> Inl e | Inr i' \<Rightarrow>
           case int_of s of Inl e \<Rightarrow> Inl e | Inr s' \<Rightarrow>
           case int_of l of Inl e \<Rightarrow> Inl e | Inr l' \<Rightarrow>
             Inr \<lparr>token_id = i', token_start = s', token_length = l', token_text = t,
                  token_prev = None, token_next = None\<rparr>)
      | _ \<Rightarrow> Inl TypeError)"

text \<open>
  Modelled from the spec: the class \<^verbatim>\<open>Span\<close> of \<^verbatim>\<open>dialent.objects\<close>. Its constructor takes
  the six left fields of a span record: id, tag, character start, character count,
  starting token index and token count. \<open>tokens\<close> and \<open>text\<close> are assigned by the loader.
\<close>

record span =
  span_id :: int
  span_tag :: string
  span_start :: int
  span_nchars :: int
  span_start_token :: int
  span_ntokens :: int
  span_tokens :: "nat list"
  span_text :: string

definition Span_init :: "string list \<Rightarrow> error + span" where
  "Span_init args =
     (case args of
        [i, t, s, c, k, n] \<Rightarrow>
          (case int_of i of Inl e \<Rightarrow> Inl e | Inr i' \<Rightarrow>
           case int_of s of Inl e \<Rightarrow> Inl e | Inr s' \<Rightarrow>
           case int_of c of Inl e \<Rightarrow> Inl e | Inr c' \<Rightarrow>
           case int_of k of Inl e \<Rightarrow> Inl e | Inr k' \<Rightarrow>
           case int_of n of Inl e \<Rightarrow> Inl e | Inr n' \<Rightarrow>
             Inr \<lparr>span_id = i', span_tag = t, span_start = s', span_nchars = c',
                  span_start_token = k', span_ntokens = n', span_tokens = [],
                  span_text = []\<rparr>)
      | _ \<Rightarrow> Inl TypeError)"

subsection \<open>loadTokens\<close>

text \<open>
  The loop over the rows of the token file. \<open>h\<close> is the heap and \<open>toks\<close> is
  \<^verbatim>\<open>self.tokens\<close>, the addresses of the tokens appended so far; a new token is allocated at
  the end of the heap. The result holds the exception raised, if any.
\<close>

fun tokens_loop ::
  "'a env_scheme \<Rightarrow> string \<Rightarrow> nat \<Rightarrow> string list list \<Rightarrow> token list \<Rightarrow> nat list
     \<Rightarrow> error option \<times> token list \<times> nat list" where
  "tokens_loop E filename index [] h toks = (None, h, toks)"
| "tokens_loop E filename index (line # rest) h toks =
     (if length line = 0 then tokens_loop E filename (Suc index) rest h toks
      else if length line \<noteq> TOKEN_LINE_LENGTH E
        then (Some (WrongLength index filename), h, toks)
      else (case Token_init line of
              Inl e \<Rightarrow> (Some e, h, toks)
            | Inr t \<Rightarrow> tokens_loop E filename (Suc index) rest (h @ [t]) (toks @ [length h])))"

text \<open>
  The loop that sets the neighbour links: the token at position \<open>i\<close> of the sorted list
  gets \<open>prev\<close> when \<open>i \<noteq> 0\<close> and \<open>next\<close> when \<open>i \<noteq> len(self.tokens) - 1\<close>.
\<close>

definition link_step :: "nat list \<Rightarrow> nat \<Rightarrow> token list \<Rightarrow> token list" where
  "link_step toks i h =
     (let a = toks ! i;
          h1 = (if i \<noteq> 0 then h[a := (h ! a)\<lparr>token_prev := Some (toks ! (i - 1))\<rparr>] else h);
          h2 = (if int i \<noteq> int (length toks) - 1
                then h1[a := (h1 ! a)\<lparr>token_next := Some (toks ! (i + 1))\<rparr>] else h1)
      in h2)"

definition link_loop :: "nat list \<Rightarrow> token list \<Rightarrow> token list" where
  "link_loop toks h = fold (link_step toks) [0..<length toks] h"


subsection \<open>Mentions, entities and the document object\<close>

text \<open>
  Modelled from the spec: the class \<^verbatim>\<open>Mention\<close> of \<^verbatim>\<open>dialent.objects\<close>. A mention has an
  id, a semantic tag and the spans its span ids resolve to in the span dictionary; an id
  that is not in the dictionary makes the constructor fail. Spans are not changed once
  they are stored, so a mention holds them by value.
\<close>

record mention =
  mention_id :: int
  mention_tag :: string
  mention_spans :: "span list"

definition Mention_init ::
  "int \<Rightarrow> string \<Rightarrow> int list \<Rightarrow> (int \<rightharpoonup> span) \<Rightarrow> error + mention" where
  "Mention_init i t span_ids span_dict =
     (case map_raise (dict_get span_dict) span_ids of
        Inl e \<Rightarrow> Inl e
      | Inr sps \<Rightarrow> Inr \<lparr>mention_id = i, mention_tag = t, mention_spans = sps\<rparr>)"

text \<open>
  Modelled from the spec: the class \<^verbatim>\<open>Entity\<close> of \<^verbatim>\<open>dialent.objects\<close>, a coreference chain
  that records how it was built. \<^verbatim>\<open>Entity.fromStandard\<close> resolves the mention ids of a
  block against the mention dictionary; \<^verbatim>\<open>Entity.fromTest\<close> keeps the raw block, with
  nothing resolved.
\<close>

datatype entity = Resolved "mention list" | Raw string

definition Entity_fromStandard ::
  "'a env_scheme \<Rightarrow> string \<Rightarrow> (int \<rightharpoonup> mention) \<Rightarrow> (int \<rightharpoonup> span) \<Rightarrow> error + entity" where
  "Entity_fromStandard E buffer mention_dict span_dict =
     (case entity_refs E buffer of
        Inl e \<Rightarrow> Inl e
      | Inr ids \<Rightarrow>
          (case map_raise (dict_get mention_dict) ids of
             Inl e \<Rightarrow> Inl e
           | Inr ms \<Rightarrow> Inr (Resolved ms)))"

definition Entity_fromTest :: "string \<Rightarrow> entity" where
  "Entity_fromTest buffer = Raw buffer"

text \<open>
  A \<^verbatim>\<open>Standard\<close> object. An attribute that has not been assigned yet is \<open>None\<close>. \<open>heap\<close>
  holds the token objects that \<open>tokens\<close>, \<open>token_dict\<close> and the spans refer to.
\<close>

record standard =
  heap :: "token list"
  tokens :: "nat list option"
  token_dict :: "(int \<rightharpoonup> nat) option"
  spans :: "span list option"
  span_dict :: "(int \<rightharpoonup> span) option"
  mentions :: "mention list option"
  mention_dict :: "(int \<rightharpoonup> mention) option"
  entities :: "entity list option"
  doc_text :: "string option"
  name :: "string option"

definition new_object :: standard where
  "new_object =
     \<lparr>heap = [], tokens = None, token_dict = None, spans = None, span_dict = None,
      mentions = None, mention_dict = None, entities = None, doc_text = None, name = None\<rparr>"

definition loadTokens ::
  "'a env_scheme \<Rightarrow> files \<Rightarrow> string \<Rightarrow> standard \<Rightarrow> error option \<times> standard" where
  "loadTokens E fs filename s =
     (let s1 = s\<lparr>tokens := Some []\<rparr> in
      case fs filename of
        None \<Rightarrow> (Some (OSError filename), s1)
      | Some contents \<Rightarrow>
          (case csv_reader E (DEFAULT_DELIMITER E) (QUOTECHAR E) contents of
             (rows, failure) \<Rightarrow>
               (case tokens_loop E filename 0 rows (heap s1) [] of
                  (Some e, h, toks) \<Rightarrow> (Some e, s1\<lparr>heap := h, tokens := Some toks\<rparr>)
                | (None, h, toks) \<Rightarrow>
                    (case failure of
                       Some e \<Rightarrow> (Some e, s1\<lparr>heap := h, tokens := Some toks\<rparr>)
                     | None \<Rightarrow>
                         (let d = dict_of (\<lambda>a. token_id (h ! a)) toks;
                              sorted_toks = sort_key (\<lambda>a. token_start (h ! a)) toks
                          in (None, s1\<lparr>heap := link_loop sorted_toks h,
                                       tokens := Some sorted_toks,
                                       token_dict := Some d\<rparr>))))))"

subsection \<open>loadSpans\<close>

text \<open>What the body of a loop does with one line: skip it, raise, or append an object.\<close>

datatype 'a step = Continue | Raise error | Append 'a

definition span_line ::
  "'a env_scheme \<Rightarrow> string \<Rightarrow> (int \<rightharpoonup> nat) option \<Rightarrow> nat \<Rightarrow> string \<Rightarrow> span step" where
  "span_line E filename td index line =
     (if length line = 0 then Continue
      else case str_split (SPAN_FILE_SEPARATOR E) line of Inl e \<Rightarrow> Raise e | Inr parts \<Rightarrow>
        if length parts \<noteq> 2
        then Raise (MissingSymbol (SPAN_FILE_SEPARATOR E) index filename)
        else case str_split (DEFAULT_DELIMITER E) (parts ! 0) of Inl e \<Rightarrow> Raise e | Inr ls \<Rightarrow>
          let filtered_left = filter (\<lambda>i. length i > 0) ls in
          if length filtered_left < 6 then Raise (MissingLeftParts index filename)
          else case Span_init filtered_left of Inl e \<Rightarrow> Raise e | Inr new_span \<Rightarrow>
            case str_split (DEFAULT_DELIMITER E) (parts ! 1) of Inl e \<Rightarrow> Raise e | Inr rs \<Rightarrow>
              let filtered_right = filter (\<lambda>i. length i > 0) rs in
              if int (length filtered_right) \<noteq> 2 * span_ntokens new_span
              then Raise (MissingRightParts index filename)
              else case map_raise int_of (slice_to (span_ntokens new_span) filtered_right) of
                  Inl e \<Rightarrow> Raise e
                | Inr token_ids \<Rightarrow>
                   (case map_raise
                           (\<lambda>x. case td of None \<Rightarrow> Inl (AttributeError ''_token_dict'')
                                 | Some d \<Rightarrow> dict_get d x) token_ids of
                      Inl e \<Rightarrow> Raise e
                    | Inr toks \<Rightarrow>
                        Append (new_span
                          \<lparr>span_tokens := toks,
                           span_text := filter (\<lambda>c. c \<noteq> newline)
                             (str_join '' ''
                                (slice_from (span_ntokens new_span) filtered_right))\<rparr>)))"

fun spans_loop ::
  "'a env_scheme \<Rightarrow> string \<Rightarrow> (int \<rightharpoonup> nat) option \<Rightarrow> nat \<Rightarrow> string list \<Rightarrow> span list
     \<Rightarrow> error option \<times> span list" where
  "spans_loop E filename td index [] acc = (None, acc)"
| "spans_loop E filename td index (line # rest) acc =
     (case span_line E filename td index line of
        Continue \<Rightarrow> spans_loop E filename td (Suc index) rest acc
      | Raise e \<Rightarrow> (Some e, acc)
      | Append sp \<Rightarrow> spans_loop E filename td (Suc index) rest (acc @ [sp]))"

definition loadSpans ::
  "'a env_scheme \<Rightarrow> files \<Rightarrow> string \<Rightarrow> standard \<Rightarrow> error option \<times> standard" where
  "loadSpans E fs filename s =
     (let s1 = s\<lparr>spans := Some []\<rparr> in
      case fs filename of
        None \<Rightarrow> (Some (OSError filename), s1)
      | Some contents \<Rightarrow>
          (case spans_loop E filename (token_dict s1) 0 (file_lines contents) [] of
             (Some e, sps) \<Rightarrow> (Some e, s1\<lparr>spans := Some sps\<rparr>)
           | (None, sps) \<Rightarrow>
               (None, s1\<lparr>spans := Some sps, span_dict := Some (dict_of span_id sps)\<rparr>)))"


subsection \<open>loadMentions\<close>

definition mention_line ::
  "'a env_scheme \<Rightarrow> string \<Rightarrow> (int \<rightharpoonup> span) option \<Rightarrow> nat \<Rightarrow> string list
     \<Rightarrow> mention step" where
  "mention_line E filename sd index row =
     (let line = (if COMMENT_SEPARATOR E \<in> set row
                  then takeWhile (\<lambda>f. f \<noteq> COMMENT_SEPARATOR E) row else row)
      in if length line = 0 then Continue
         else if length line \<le> 2 then Raise (MissingSpans index filename)
         else case (case int_of (line ! 0) of
                      Inl e \<Rightarrow> Inl e
                    | Inr mention_id' \<Rightarrow>
                        (case map_raise int_of (drop 2 line) of
                           Inl e \<Rightarrow> Inl e
                         | Inr span_indices \<Rightarrow> Inr (mention_id', span_indices))) of
                Inl e \<Rightarrow> Raise (InvalidId index filename e)
              | Inr (mention_id', span_indices) \<Rightarrow>
                  (case sd of
                     None \<Rightarrow> Raise (AttributeError ''_span_dict'')
                   | Some d \<Rightarrow>
                       (case Mention_init mention_id' (line ! 1) span_indices d of
                          Inl e \<Rightarrow> Raise e
                        | Inr m \<Rightarrow> Append m)))"

fun mentions_loop ::
  "'a env_scheme \<Rightarrow> string \<Rightarrow> (int \<rightharpoonup> span) option \<Rightarrow> nat \<Rightarrow> string list list
     \<Rightarrow> mention list \<Rightarrow> error option \<times> mention list" where
  "mentions_loop E filename sd index [] acc = (None, acc)"
| "mentions_loop E filename sd index (row # rest) acc =
     (case mention_line E filename sd index row of
        Continue \<Rightarrow> mentions_loop E filename sd (Suc index) rest acc
      | Raise e \<Rightarrow> (Some e, acc)
      | Append m \<Rightarrow> mentions_loop E filename sd (Suc index) rest (acc @ [m]))"

definition loadMentions ::
  "'a env_scheme \<Rightarrow> files \<Rightarrow> string \<Rightarrow> standard \<Rightarrow> error option \<times> standard" where
  "loadMentions E fs filename s =
     (let s1 = s\<lparr>mentions := Some []\<rparr> in
      case fs filename of
        None \<Rightarrow> (Some (OSError filename), s1)
      | Some contents \<Rightarrow>
          (case csv_reader E '' '' (QUOTECHAR E) contents of
             (rows, failure) \<Rightarrow>
               (case mentions_loop E filename (span_dict s1) 0 rows [] of
                  (Some e, ms) \<Rightarrow> (Some e, s1\<lparr>mentions := Some ms\<rparr>)
                | (None, ms) \<Rightarrow>
                    (case failure of
                       Some e \<Rightarrow> (Some e, s1\<lparr>mentions := Some ms\<rparr>)
                     | None \<Rightarrow>
                         (None, s1\<lparr>mentions := Some ms,
                                    mention_dict := Some (dict_of mention_id ms)\<rparr>)))))"

subsection \<open>loadCoreference\<close>

text \<open>
  The loop over the lines of the coreference file, with the buffer and the entities
  appended so far. It returns the buffer left at the end of the file.
\<close>

fun coref_loop ::
  "'a env_scheme \<Rightarrow> (int \<rightharpoonup> mention) option \<Rightarrow> (int \<rightharpoonup> span) option \<Rightarrow> string list
     \<Rightarrow> string \<Rightarrow> entity list \<Rightarrow> error option \<times> string \<times> entity list" where
  "coref_loop E md sd [] buffer acc = (None, buffer, acc)"
| "coref_loop E md sd (raw_line # rest) buffer acc =
     (let line = str_strip [CHR '' '', CHR 0x09, CHR 0x0A, CHR 0x0D] raw_line in
      if length line = 0 then
        (if length buffer > 0 then
           (case md of
              None \<Rightarrow> (Some (AttributeError ''_mention_dict''), buffer, acc)
            | Some mention_dict' \<Rightarrow>
               (case sd of
                  None \<Rightarrow> (Some (AttributeError ''_span_dict''), buffer, acc)
                | Some span_dict' \<Rightarrow>
                   (case Entity_fromStandard E buffer mention_dict' span_dict' of
                      Inl e \<Rightarrow> (Some e, buffer, acc)
                    | Inr e \<Rightarrow> coref_loop E md sd rest [] (acc @ [e]))))
         else coref_loop E md sd rest buffer acc)
      else coref_loop E md sd rest (buffer @ line @ [newline]) acc)"

definition loadCoreference ::
  "'a env_scheme \<Rightarrow> files \<Rightarrow> string \<Rightarrow> standard \<Rightarrow> error option \<times> standard" where
  "loadCoreference E fs filename s =
     (let s1 = s\<lparr>entities := Some []\<rparr> in
      case fs filename of
        None \<Rightarrow> (None, s1)
      | Some contents \<Rightarrow>
          (case coref_loop E (mention_dict s1) (span_dict s1) (file_lines contents) [] [] of
             (Some e, buffer, es) \<Rightarrow> (Some e, s1\<lparr>entities := Some es\<rparr>)
           | (None, buffer, es) \<Rightarrow>
               (if length buffer > 0
                then (None, s1\<lparr>entities := Some (es @ [Entity_fromTest buffer])\<rparr>)
                else (None, s1\<lparr>entities := Some es\<rparr>))))"

subsection \<open>loadText and the constructor\<close>

definition loadText ::
  "files \<Rightarrow> string \<Rightarrow> standard \<Rightarrow> error option \<times> standard" where
  "loadText fs filename s =
     (case fs filename of
        None \<Rightarrow> (Some (OSError filename), s)
      | Some contents \<Rightarrow> (None, s\<lparr>doc_text := Some (concat (file_lines contents))\<rparr>))"

text \<open>\<^verbatim>\<open>os.path.join(path, name)\<close> with the separator \<open>/\<close>.\<close>

definition path_join :: "string \<Rightarrow> string \<Rightarrow> string" where
  "path_join path nm =
     (if nm \<noteq> [] \<and> hd nm = CHR ''/'' then nm
      else if path = [] \<or> last path = CHR ''/'' then path @ nm
      else path @ ''/'' @ nm)"

text \<open>
  The body of the \<^verbatim>\<open>try\<close> statement of \<^verbatim>\<open>__init__\<close>: the five stages in order, each on the
  object as the stage before left it, then the assignment of \<open>name\<close>. An exception ends
  the body at once.
\<close>

definition load_body ::
  "'a env_scheme \<Rightarrow> files \<Rightarrow> string \<Rightarrow> string \<Rightarrow> standard \<Rightarrow> error option \<times> standard" where
  "load_body E fs nm path s0 =
     (let full_name = path_join path nm in
      case loadTokens E fs (full_name @ ''.tokens'') s0 of
        (Some e, s) \<Rightarrow> (Some e, s)
      | (None, s1) \<Rightarrow>
     (case loadSpans E fs (full_name @ ''.spans'') s1 of
        (Some e, s) \<Rightarrow> (Some e, s)
      | (None, s2) \<Rightarrow>
     (case loadMentions E fs (full_name @ ''.objects'') s2 of
        (Some e, s) \<Rightarrow> (Some e, s)
      | (None, s3) \<Rightarrow>
     (case loadCoreference E fs (full_name @ ''.coref'') s3 of
        (Some e, s) \<Rightarrow> (Some e, s)
      | (None, s4) \<Rightarrow>
     (case loadText fs (full_name @ ''.txt'') s4 of
        (Some e, s) \<Rightarrow> (Some e, s)
      | (None, s5) \<Rightarrow> (None, s5\<lparr>name := Some nm\<rparr>))))))"

text \<open>
  What \<^verbatim>\<open>__init__\<close> prints: the line naming the document, then the exception.
\<close>

datatype print_line = FailedToLoad string | Printed error

text \<open>
  The outcome of a call of the constructor, as the caller sees it: the exception that
  reaches the caller, if any, what was printed, and the object.
\<close>

record outcome =
  propagated :: "error option"
  printed :: "print_line list"
  object :: standard

text \<open>
  \<^verbatim>\<open>__init__\<close>: the handler \<^verbatim>\<open>except Exception\<close> takes every exception of the body, prints
  the two lines and returns normally.
\<close>

definition Standard_init :: "'a env_scheme \<Rightarrow> files \<Rightarrow> string \<Rightarrow> string \<Rightarrow> outcome" where
  "Standard_init E fs nm path =
     (case load_body E fs nm path new_object of
        (None, s) \<Rightarrow> \<lparr>propagated = None, printed = [], object = s\<rparr>
      | (Some e, s) \<Rightarrow>
          \<lparr>propagated = None, printed = [FailedToLoad nm, Printed e], object = s\<rparr>)"


subsection \<open>makeTokenSets\<close>

text \<open>
  Modelled from the spec: the class \<^verbatim>\<open>TokenSet\<close> of \<^verbatim>\<open>dialent.objects\<close>. A token set holds
  the tokens covered by one mention, the tag it was built with, a mark for each token and
  an optional parent, a reference to an enclosing organization token set. Token sets are
  changed by \<^verbatim>\<open>findParents\<close> after they have been appended to the result, so they live in
  a store of their own (a list) and are referred to by their address in it.
\<close>

record 'm tokenset =
  set_tokens :: "nat list"
  set_tag :: string
  set_marks :: "nat \<rightharpoonup> 'm"
  set_parent :: "nat option"

definition TokenSet_init :: "nat list \<Rightarrow> string \<Rightarrow> 'm tokenset" where
  "TokenSet_init toks t =
     \<lparr>set_tokens = toks, set_tag = t, set_marks = Map.empty, set_parent = None\<rparr>"

definition setMark :: "'m tokenset \<Rightarrow> nat \<Rightarrow> 'm \<Rightarrow> 'm tokenset" where
  "setMark ts tok mark = ts\<lparr>set_marks := (set_marks ts)(tok \<mapsto> mark)\<rparr>"

text \<open>
  Modelled from the spec: \<^verbatim>\<open>TokenSet.findParents\<close>. The position of a token is its place
  in the registry, the sorted token list of the document. The token run of a token set
  reaches from the first to the last position of its tokens. A token set is enclosed by
  another one when every token of it lies within the other's run. \<^verbatim>\<open>findParents\<close> checks
  the token set against every other token set of the list, in order, and records an
  enclosing one as the parent.
\<close>

definition position :: "nat list \<Rightarrow> nat \<Rightarrow> nat" where
  "position registry a = length (takeWhile (\<lambda>b. b \<noteq> a) registry)"

definition token_run :: "nat list \<Rightarrow> 'm tokenset \<Rightarrow> nat list" where
  "token_run registry ts =
     (case map (position registry) (set_tokens ts) of
        [] \<Rightarrow> []
      | p # ps \<Rightarrow> [fold min ps p ..< Suc (fold max ps p)])"

definition enclosed :: "nat list \<Rightarrow> 'm tokenset \<Rightarrow> 'm tokenset \<Rightarrow> bool" where
  "enclosed registry a b =
     list_all (\<lambda>t. position registry t \<in> set (token_run registry b)) (set_tokens a)"

definition findParents ::
  "nat list \<Rightarrow> nat \<Rightarrow> nat list \<Rightarrow> 'm tokenset list \<Rightarrow> 'm tokenset list" where
  "findParents registry self all_sets store =
     fold (\<lambda>other st.
             if other \<noteq> self \<and> enclosed registry (st ! self) (st ! other)
             then st[self := (st ! self)\<lparr>set_parent := Some other\<rparr>] else st)
          all_sets store"

text \<open>The tags that are allowed, and the key a mention is grouped under.\<close>

definition allowed_tags :: "bool \<Rightarrow> string list" where
  "allowed_tags is_locorg_allowed =
     [''org'', ''per'', ''loc''] @ (if is_locorg_allowed then [''locorg''] else [])"

definition mention_key :: "bool \<Rightarrow> mention \<Rightarrow> string" where
  "mention_key is_locorg_allowed m =
     (if mention_tag m = ''locorg'' \<and> \<not> is_locorg_allowed then ''loc'' else mention_tag m)"

text \<open>
  The token set of one mention: built from all tokens of all spans of the mention, then
  marked token by token, span after span, with the mark of the table \<^verbatim>\<open>Tables.getMark\<close>.
  The table is a parameter.
\<close>

definition mention_token_set ::
  "(string \<Rightarrow> string \<Rightarrow> 'm) \<Rightarrow> string \<Rightarrow> mention \<Rightarrow> 'm tokenset" where
  "mention_token_set getMark key m =
     fold (\<lambda>sp ts. fold (\<lambda>tok ts'. setMark ts' tok (getMark (set_tag ts') (span_tag sp)))
                        (span_tokens sp) ts)
          (mention_spans m)
          (TokenSet_init (concat (map span_tokens (mention_spans m))) key)"

text \<open>
  The loop over the mentions. \<open>store\<close> holds the token sets built so far and \<open>res\<close> is
  the dictionary from tags to lists of token set addresses.
\<close>

fun token_sets_loop ::
  "(string \<Rightarrow> string \<Rightarrow> 'm) \<Rightarrow> bool \<Rightarrow> mention list \<Rightarrow> 'm tokenset list
     \<Rightarrow> (string \<rightharpoonup> nat list) \<Rightarrow> error + 'm tokenset list \<times> (string \<rightharpoonup> nat list)" where
  "token_sets_loop getMark is_locorg_allowed [] store res = Inr (store, res)"
| "token_sets_loop getMark is_locorg_allowed (m # ms) store res =
     (let key = mention_key is_locorg_allowed m in
      if key \<notin> set (allowed_tags is_locorg_allowed) then Inl AssertionError
      else (case res key of
              None \<Rightarrow> Inl (KeyError (Str key))
            | Some l \<Rightarrow>
                token_sets_loop getMark is_locorg_allowed ms
                  (store @ [mention_token_set getMark key m])
                  (res(key \<mapsto> l @ [length store]))))"

definition nesting_pass ::
  "nat list \<Rightarrow> nat list \<Rightarrow> 'm tokenset list \<Rightarrow> 'm tokenset list" where
  "nesting_pass registry all_orgs store =
     fold (\<lambda>org st. findParents registry org all_orgs st) all_orgs store"

definition registry_of :: "standard \<Rightarrow> nat list" where
  "registry_of s = (case tokens s of None \<Rightarrow> [] | Some toks \<Rightarrow> toks)"

definition makeTokenSets ::
  "(string \<Rightarrow> string \<Rightarrow> 'm) \<Rightarrow> standard \<Rightarrow> bool
     \<Rightarrow> error + 'm tokenset list \<times> (string \<rightharpoonup> nat list)" where
  "makeTokenSets getMark s is_locorg_allowed =
     (case mentions s of
        None \<Rightarrow> Inl (AttributeError ''mentions'')
      | Some ms \<Rightarrow>
         (case token_sets_loop getMark is_locorg_allowed ms []
                 (map_of (map (\<lambda>x. (x, [])) (allowed_tags is_locorg_allowed))) of
            Inl e \<Rightarrow> Inl e
          | Inr (store, res) \<Rightarrow>
             (case res ''org'' of
                None \<Rightarrow> Inl (KeyError (Str ''org''))
              | Some orgs \<Rightarrow>
                 (if is_locorg_allowed
                  then (case res ''locorg'' of
                          None \<Rightarrow> Inl (KeyError (Str ''locorg''))
                        | Some locorgs \<Rightarrow>
                            Inr (nesting_pass (registry_of s) (orgs @ locorgs) store, res))
                  else Inr (nesting_pass (registry_of s) orgs store, res)))))"


subsection \<open>An environment to run the model in\<close>

text \<open>
  What \<^verbatim>\<open>csv.reader\<close> yields for a file without quote characters: the fields of every
  line between the delimiters, and no field for an empty line.
\<close>

definition plain_rows :: "string \<Rightarrow> string \<Rightarrow> string \<Rightarrow> string list list \<times> error option" where
  "plain_rows delimiter quotechar contents =
     (map (\<lambda>l. let l' = filter (\<lambda>c. c \<noteq> newline) l
                in if l' = [] then [] else split_from delimiter [] l')
          (file_lines contents),
      None)"

text \<open>A block of the coreference file that lists one mention id on each line.\<close>

definition ids_by_line :: "string \<Rightarrow> error + int list" where
  "ids_by_line buffer = map_raise int_of (map (filter (\<lambda>c. c \<noteq> newline)) (file_lines buffer))"

definition example_env :: env where
  "example_env =
     \<lparr>DEFAULT_DELIMITER = '' '', QUOTECHAR = [CHR 0x22], TOKEN_LINE_LENGTH = 4,
      SPAN_FILE_SEPARATOR = ''#'', COMMENT_SEPARATOR = ''#'',
      csv_reader = plain_rows, entity_refs = ids_by_line\<rparr>"


text \<open>Example files: a document with a token file only, and a whole document.\<close>


definition tokens_only :: files where
  "tokens_only = (\<lambda>f. if f = ''./d.tokens'' then Some (''7 0 4 Bank'' @ [newline]) else None)"

definition whole_document :: files where
  "whole_document =
     (\<lambda>f. if f = ''./d.tokens''
            then Some (''2 5 2 of'' @ [newline] @ ''1 0 4 Bank'' @ [newline]
                       @ ''3 8 7 Rossiya'' @ [newline])
          else if f = ''./d.spans''
            then Some (''10 org 0 15 1 3  # 1 2 3 Bank of Rossiya'' @ [newline])
          else if f = ''./d.objects'' then Some (''1 org 10 # comment'' @ [newline])
          else if f = ''./d.txt'' then Some ''Bank of Rossiya''
          else None)"


definition no_text :: files where
  "no_text =
     (\<lambda>f. if f = ''./d.tokens'' then Some (''1 0 4 Bank'' @ [newline])
          else if f = ''./d.spans'' then Some (''10 org 0 4 1 1 # 1 Bank'' @ [newline])
          else if f = ''./d.objects'' then Some (''1 org 10'' @ [newline])
          else None)"

text \<open>Example span files and an object whose token dictionary holds one token.\<close>

definition two_span_lines :: files where
  "two_span_lines =
     (\<lambda>f. if f = ''d.spans''
          then Some (''10 org 0 4 1 1 # 1 Bank'' @ [newline] @ ''11 org 5 2 2 1'' @ [newline])
          else None)"

definition one_token :: standard where
  "one_token = new_object\<lparr>token_dict := Some [1 \<mapsto> 0]\<rparr>"

definition bank_span :: span where
  "bank_span =
     \<lparr>span_id = 10, span_tag = ''org'', span_start = 0, span_nchars = 4,
      span_start_token = 1, span_ntokens = 1, span_tokens = [0], span_text = ''Bank''\<rparr>"

definition blank_second_line :: files where
  "blank_second_line =
     (\<lambda>f. if f = ''d.spans''
          then Some (''10 org 0 4 1 1 # 1 Bank'' @ [newline] @ [newline])
          else None)"

text \<open>
  The blocks of a coreference file: a line is blank when nothing is left of it after the
  white space has been stripped, and the buffer of a block of lines is what the loop has
  accumulated after reading them.
\<close>


definition blank_line :: "string \<Rightarrow> bool" where
  "blank_line l = (str_strip [CHR '' '', CHR 0x09, CHR 0x0A, CHR 0x0D] l = [])"

definition buffer_of :: "string list \<Rightarrow> string" where
  "buffer_of block =
     concat (map (\<lambda>l. str_strip [CHR '' '', CHR 0x09, CHR 0x0A, CHR 0x0D] l @ [newline]) block)"


text \<open>Example mentions, an object that holds them, and a coreference file.\<close>

definition first_mention :: mention where
  "first_mention = \<lparr>mention_id = 1, mention_tag = ''org'', mention_spans = []\<rparr>"

definition second_mention :: mention where
  "second_mention = \<lparr>mention_id = 2, mention_tag = ''org'', mention_spans = []\<rparr>"

definition two_mentions :: standard where
  "two_mentions =
     new_object\<lparr>span_dict := Some Map.empty,
                mention_dict := Some [1 \<mapsto> first_mention, 2 \<mapsto> second_mention]\<rparr>"

definition coref_file :: files where
  "coref_file =
     (\<lambda>f. if f = ''d.coref'' then Some (''1'' @ [newline] @ ''2'' @ [newline] @ [newline] @ ''2'')
          else None)"

text \<open>
  The addresses of the token sets that the loop of \<^verbatim>\<open>makeTokenSets\<close> appends under the key
  \<open>k\<close>, when it allocates the token sets of the mentions \<open>ms\<close> from address \<open>n\<close> on.
\<close>


definition addresses_of :: "bool \<Rightarrow> nat \<Rightarrow> mention list \<Rightarrow> string \<Rightarrow> nat list" where
  "addresses_of is_locorg_allowed n ms k =
     map fst (filter (\<lambda>(a, m). mention_key is_locorg_allowed m = k) (zip [n..<n + length ms] ms))"

text \<open>
  What the nesting pass computes. \<open>recorded_parent\<close> is the parent that \<^verbatim>\<open>findParents\<close>
  leaves in the token set at address \<open>self\<close>: the last of the other token sets of the list
  that enclose it, or the parent it had when there is none. \<open>with_parents\<close> is the store
  after \<^verbatim>\<open>findParents\<close> has run for the addresses in \<open>visited\<close>.
\<close>

definition recorded_parent ::
  "nat list \<Rightarrow> 'm tokenset list \<Rightarrow> nat list \<Rightarrow> nat \<Rightarrow> nat option" where
  "recorded_parent registry store all_sets self =
     (case filter (\<lambda>other. other \<noteq> self \<and> enclosed registry (store ! self) (store ! other))
             all_sets of
        [] \<Rightarrow> set_parent (store ! self)
      | c # cs \<Rightarrow> Some (last (c # cs)))"

definition with_parents ::
  "nat list \<Rightarrow> 'm tokenset list \<Rightarrow> nat list \<Rightarrow> nat list \<Rightarrow> 'm tokenset list" where
  "with_parents registry store all_sets visited =
     map (\<lambda>a. if a \<in> set visited
               then (store ! a)\<lparr>set_parent := recorded_parent registry store all_sets a\<rparr>
               else store ! a)
         [0..<length store]"

text \<open>The addresses the nesting pass runs over.\<close>

definition all_orgs_of :: "bool \<Rightarrow> mention list \<Rightarrow> nat list" where
  "all_orgs_of flag ms =
     addresses_of flag 0 ms ''org'' @ (if flag then addresses_of flag 0 ms ''locorg'' else [])"

text \<open>An example mark table and two objects with mentions.\<close>

definition pair_mark :: "string \<Rightarrow> string \<Rightarrow> string \<times> string" where
  "pair_mark entity_tag span_tag' = (entity_tag, span_tag')"

definition other_document :: standard where
  "other_document =
     new_object\<lparr>mentions :=
       Some [\<lparr>mention_id = 1, mention_tag = ''org'', mention_spans = [bank_span]\<rparr>,
             \<lparr>mention_id = 2, mention_tag = ''other'', mention_spans = [bank_span]\<rparr>]\<rparr>"

definition locorg_document :: standard where
  "locorg_document =
     new_object\<lparr>tokens := Some [0],
       mentions := Some [\<lparr>mention_id = 5, mention_tag = ''locorg'', mention_spans = [bank_span]\<rparr>]\<rparr>"

text \<open>
  The mentions whose token sets the nesting pass runs over: those grouped under \<open>org\<close>
  and, when the flag is on, those grouped under \<open>locorg\<close>.
\<close>

definition in_nesting_pass :: "bool \<Rightarrow> mention \<Rightarrow> bool" where
  "in_nesting_pass is_locorg_allowed m =
     (mention_key is_locorg_allowed m = ''org''
      \<or> (is_locorg_allowed \<and> mention_key is_locorg_allowed m = ''locorg''))"


text \<open>Example objects with organization mentions over the tokens 0, 1 and 2.\<close>

definition span_over :: "nat list \<Rightarrow> span" where
  "span_over toks =
     \<lparr>span_id = 20, span_tag = ''org_name'', span_start = 0, span_nchars = 0,
      span_start_token = 0, span_ntokens = int (length toks), span_tokens = toks,
      span_text = []\<rparr>"

definition mention_over :: "int \<Rightarrow> string \<Rightarrow> nat list \<Rightarrow> mention" where
  "mention_over i t toks = \<lparr>mention_id = i, mention_tag = t, mention_spans = [span_over toks]\<rparr>"

definition nested_document :: standard where
  "nested_document =
     new_object\<lparr>tokens := Some [0, 1, 2],
       mentions := Some [mention_over 1 ''org'' [0], mention_over 2 ''org'' [0, 1],
                         mention_over 3 ''org'' [0, 1, 2]]\<rparr>"

definition two_nested_document :: standard where
  "two_nested_document =
     new_object\<lparr>tokens := Some [0, 1, 2],
       mentions := Some [mention_over 1 ''org'' [0], mention_over 2 ''locorg'' [0, 1],
                         mention_over 3 ''per'' [0, 1, 2]]\<rparr>"

definition two_apart_document :: standard where
  "two_apart_document =
     new_object\<lparr>tokens := Some [0, 1, 2],
       mentions := Some [mention_over 1 ''org'' [0], mention_over 2 ''org'' [2]]\<rparr>"







text \<open>
  Objects with two organization mentions whose tokens interleave, with a third
  organization around one of two that lie apart, and with an organization mention
  without tokens.
\<close>

definition gap_document :: standard where
  "gap_document =
     new_object\<lparr>tokens := Some [0, 1, 2],
       mentions := Some [\<lparr>mention_id = 1, mention_tag = ''org'',
                            mention_spans = [span_over [0], span_over [2]]\<rparr>,
                         mention_over 2 ''org'' [1]]\<rparr>"

definition third_document :: standard where
  "third_document =
     new_object\<lparr>tokens := Some [0, 1, 2],
       mentions := Some [mention_over 1 ''org'' [0], mention_over 2 ''org'' [2],
                         mention_over 3 ''org'' [0, 1]]\<rparr>"

definition empty_run_document :: standard where
  "empty_run_document =
     new_object\<lparr>tokens := Some [0, 1, 2],
       mentions := Some [mention_over 1 ''org'' [], mention_over 2 ''org'' [0]]\<rparr>"

section \<open>Properties\<close>

subsection \<open>What each stage leaves unchanged\<close>


lemma loadTokens_frame:
  "spans (snd (loadTokens E fs filename s)) = spans s"
  "span_dict (snd (loadTokens E fs filename s)) = span_dict s"
  "mentions (snd (loadTokens E fs filename s)) = mentions s"
  "mention_dict (snd (loadTokens E fs filename s)) = mention_dict s"
  "entities (snd (loadTokens E fs filename s)) = entities s"
  "doc_text (snd (loadTokens E fs filename s)) = doc_text s"
  "name (snd (loadTokens E fs filename s)) = name s"
  by (simp_all add: loadTokens_def Let_def split: option.split prod.split)

lemma loadSpans_frame:
  "heap (snd (loadSpans E fs filename s)) = heap s"
  "tokens (snd (loadSpans E fs filename s)) = tokens s"
  "token_dict (snd (loadSpans E fs filename s)) = token_dict s"
  "mentions (snd (loadSpans E fs filename s)) = mentions s"
  "mention_dict (snd (loadSpans E fs filename s)) = mention_dict s"
  "entities (snd (loadSpans E fs filename s)) = entities s"
  "doc_text (snd (loadSpans E fs filename s)) = doc_text s"
  "name (snd (loadSpans E fs filename s)) = name s"
  by (simp_all add: loadSpans_def Let_def split: option.split prod.split)

lemma loadMentions_frame:
  "heap (snd (loadMentions E fs filename s)) = heap s"
  "tokens (snd (loadMentions E fs filename s)) = tokens s"
  "token_dict (snd (loadMentions E fs filename s)) = token_dict s"
  "spans (snd (loadMentions E fs filename s)) = spans s"
  "span_dict (snd (loadMentions E fs filename s)) = span_dict s"
  "entities (snd (loadMentions E fs filename s)) = entities s"
  "doc_text (snd (loadMentions E fs filename s)) = doc_text s"
  "name (snd (loadMentions E fs filename s)) = name s"
  by (simp_all add: loadMentions_def Let_def split: option.split prod.split)

lemma loadCoreference_frame:
  "heap (snd (loadCoreference E fs filename s)) = heap s"
  "tokens (snd (loadCoreference E fs filename s)) = tokens s"
  "token_dict (snd (loadCoreference E fs filename s)) = token_dict s"
  "spans (snd (loadCoreference E fs filename s)) = spans s"
  "span_dict (snd (loadCoreference E fs filename s)) = span_dict s"
  "mentions (snd (loadCoreference E fs filename s)) = mentions s"
  "mention_dict (snd (loadCoreference E fs filename s)) = mention_dict s"
  "doc_text (snd (loadCoreference E fs filename s)) = doc_text s"
  "name (snd (loadCoreference E fs filename s)) = name s"
  by (simp_all add: loadCoreference_def Let_def split: option.split prod.split)

lemma loadText_frame:
  "heap (snd (loadText fs filename s)) = heap s"
  "tokens (snd (loadText fs filename s)) = tokens s"
  "token_dict (snd (loadText fs filename s)) = token_dict s"
  "spans (snd (loadText fs filename s)) = spans s"
  "span_dict (snd (loadText fs filename s)) = span_dict s"
  "mentions (snd (loadText fs filename s)) = mentions s"
  "mention_dict (snd (loadText fs filename s)) = mention_dict s"
  "entities (snd (loadText fs filename s)) = entities s"
  "name (snd (loadText fs filename s)) = name s"
  by (simp_all add: loadText_def split: option.split)


lemma loadSpans_keeps:
  assumes "loadSpans E fs filename s = (r, s')"
  shows "heap s' = heap s \<and> tokens s' = tokens s \<and> token_dict s' = token_dict s"
  using loadSpans_frame [of E fs filename s] assms by simp

lemma loadMentions_keeps:
  assumes "loadMentions E fs filename s = (r, s')"
  shows "heap s' = heap s \<and> tokens s' = tokens s \<and> token_dict s' = token_dict s
    \<and> spans s' = spans s \<and> span_dict s' = span_dict s"
  using loadMentions_frame [of E fs filename s] assms by simp

lemma loadCoreference_keeps:
  assumes "loadCoreference E fs filename s = (r, s')"
  shows "heap s' = heap s \<and> tokens s' = tokens s \<and> token_dict s' = token_dict s
    \<and> spans s' = spans s \<and> span_dict s' = span_dict s
    \<and> mentions s' = mentions s \<and> mention_dict s' = mention_dict s"
  using loadCoreference_frame [of E fs filename s] assms by simp

lemma loadText_keeps:
  assumes "loadText fs filename s = (r, s')"
  shows "heap s' = heap s \<and> tokens s' = tokens s \<and> token_dict s' = token_dict s
    \<and> spans s' = spans s \<and> span_dict s' = span_dict s
    \<and> mentions s' = mentions s \<and> mention_dict s' = mention_dict s
    \<and> entities s' = entities s"
  using loadText_frame [of fs filename s] assms by simp

lemma stage_name:
  "loadTokens E fs f1 s = (r1, s1) \<Longrightarrow> name s1 = name s"
  "loadSpans E fs f2 s = (r2, s2) \<Longrightarrow> name s2 = name s"
  "loadMentions E fs f3 s = (r3, s3) \<Longrightarrow> name s3 = name s"
  "loadCoreference E fs f4 s = (r4, s4) \<Longrightarrow> name s4 = name s"
  "loadText fs f5 s = (r5, s5) \<Longrightarrow> name s5 = name s"
  using loadTokens_frame(7) [of E fs f1 s] loadSpans_frame(8) [of E fs f2 s]
    loadMentions_frame(8) [of E fs f3 s] loadCoreference_frame(9) [of E fs f4 s]
    loadText_frame(9) [of fs f5 s]
  by simp_all

text \<open>The outcome of the constructor when a given stage raises.\<close>

lemma init_tokens_raise:
  assumes "loadTokens E fs (path_join path nm @ ''.tokens'') new_object = (Some e, s)"
  shows "Standard_init E fs nm path =
    \<lparr>propagated = None, printed = [FailedToLoad nm, Printed e], object = s\<rparr>"
  using assms by (simp add: Standard_init_def load_body_def)

lemma init_spans_raise:
  assumes "loadTokens E fs (path_join path nm @ ''.tokens'') new_object = (None, s1)"
    and "loadSpans E fs (path_join path nm @ ''.spans'') s1 = (Some e, s)"
  shows "Standard_init E fs nm path =
    \<lparr>propagated = None, printed = [FailedToLoad nm, Printed e], object = s\<rparr>"
  using assms by (simp add: Standard_init_def load_body_def)

lemma init_mentions_raise:
  assumes "loadTokens E fs (path_join path nm @ ''.tokens'') new_object = (None, s1)"
    and "loadSpans E fs (path_join path nm @ ''.spans'') s1 = (None, s2)"
    and "loadMentions E fs (path_join path nm @ ''.objects'') s2 = (Some e, s)"
  shows "Standard_init E fs nm path =
    \<lparr>propagated = None, printed = [FailedToLoad nm, Printed e], object = s\<rparr>"
  using assms by (simp add: Standard_init_def load_body_def)

lemma init_coreference_raise:
  assumes "loadTokens E fs (path_join path nm @ ''.tokens'') new_object = (None, s1)"
    and "loadSpans E fs (path_join path nm @ ''.spans'') s1 = (None, s2)"
    and "loadMentions E fs (path_join path nm @ ''.objects'') s2 = (None, s3)"
    and "loadCoreference E fs (path_join path nm @ ''.coref'') s3 = (Some e, s)"
  shows "Standard_init E fs nm path =
    \<lparr>propagated = None, printed = [FailedToLoad nm, Printed e], object = s\<rparr>"
  using assms by (simp add: Standard_init_def load_body_def)

lemma init_text_raise:
  assumes "loadTokens E fs (path_join path nm @ ''.tokens'') new_object = (None, s1)"
    and "loadSpans E fs (path_join path nm @ ''.spans'') s1 = (None, s2)"
    and "loadMentions E fs (path_join path nm @ ''.objects'') s2 = (None, s3)"
    and "loadCoreference E fs (path_join path nm @ ''.coref'') s3 = (None, s4)"
    and "loadText fs (path_join path nm @ ''.txt'') s4 = (Some e, s)"
  shows "Standard_init E fs nm path =
    \<lparr>propagated = None, printed = [FailedToLoad nm, Printed e], object = s\<rparr>"
  using assms by (simp add: Standard_init_def load_body_def)

lemma init_complete:
  assumes "loadTokens E fs (path_join path nm @ ''.tokens'') new_object = (None, s1)"
    and "loadSpans E fs (path_join path nm @ ''.spans'') s1 = (None, s2)"
    and "loadMentions E fs (path_join path nm @ ''.objects'') s2 = (None, s3)"
    and "loadCoreference E fs (path_join path nm @ ''.coref'') s3 = (None, s4)"
    and "loadText fs (path_join path nm @ ''.txt'') s4 = (None, s5)"
  shows "Standard_init E fs nm path =
    \<lparr>propagated = None, printed = [], object = s5\<lparr>name := Some nm\<rparr>\<rparr>"
  using assms by (simp add: Standard_init_def load_body_def)

lemma init_never_propagates: "propagated (Standard_init E fs nm path) = None"
  by (simp add: Standard_init_def split: prod.split option.split)




lemma loadTokens_sets:
  "loadTokens E fs filename s = (None, s') \<Longrightarrow> tokens s' \<noteq> None \<and> token_dict s' \<noteq> None"
  by (auto simp: loadTokens_def Let_def split: option.splits prod.splits)

lemma loadSpans_sets:
  "loadSpans E fs filename s = (None, s') \<Longrightarrow> spans s' \<noteq> None \<and> span_dict s' \<noteq> None"
  by (auto simp: loadSpans_def Let_def split: option.splits prod.splits)

lemma loadMentions_sets:
  "loadMentions E fs filename s = (None, s') \<Longrightarrow> mentions s' \<noteq> None \<and> mention_dict s' \<noteq> None"
  by (auto simp: loadMentions_def Let_def split: option.splits prod.splits)

lemma loadCoreference_sets:
  "loadCoreference E fs filename s = (r, s') \<Longrightarrow> entities s' \<noteq> None"
  by (auto simp: loadCoreference_def Let_def split: option.splits prod.splits if_splits)


subsection \<open>The constructor\<close>

text \<open>
  Claim C1. Whatever exception one of the five load stages raises, the constructor
  catches it: no exception reaches the caller, the two lines are printed, and the object
  is the one the failing stage left behind. In that object the attributes of every stage
  that completed before the failure are what that stage set them to.
\<close>

theorem constructor_keeps_completed_stages:
  "propagated (Standard_init E fs nm path) = None
   \<and> (\<forall>e s. loadTokens E fs (path_join path nm @ ''.tokens'') new_object = (Some e, s)
        \<longrightarrow> object (Standard_init E fs nm path) = s
          \<and> printed (Standard_init E fs nm path) = [FailedToLoad nm, Printed e])
   \<and> (\<forall>s1 e s. loadTokens E fs (path_join path nm @ ''.tokens'') new_object = (None, s1)
          \<and> loadSpans E fs (path_join path nm @ ''.spans'') s1 = (Some e, s)
        \<longrightarrow> object (Standard_init E fs nm path) = s
          \<and> printed (Standard_init E fs nm path) = [FailedToLoad nm, Printed e]
          \<and> heap s = heap s1 \<and> tokens s = tokens s1 \<and> token_dict s = token_dict s1)
   \<and> (\<forall>s1 s2 e s. loadTokens E fs (path_join path nm @ ''.tokens'') new_object = (None, s1)
          \<and> loadSpans E fs (path_join path nm @ ''.spans'') s1 = (None, s2)
          \<and> loadMentions E fs (path_join path nm @ ''.objects'') s2 = (Some e, s)
        \<longrightarrow> object (Standard_init E fs nm path) = s
          \<and> printed (Standard_init E fs nm path) = [FailedToLoad nm, Printed e]
          \<and> heap s = heap s1 \<and> tokens s = tokens s1 \<and> token_dict s = token_dict s1
          \<and> spans s = spans s2 \<and> span_dict s = span_dict s2)
   \<and> (\<forall>s1 s2 s3 e s. loadTokens E fs (path_join path nm @ ''.tokens'') new_object = (None, s1)
          \<and> loadSpans E fs (path_join path nm @ ''.spans'') s1 = (None, s2)
          \<and> loadMentions E fs (path_join path nm @ ''.objects'') s2 = (None, s3)
          \<and> loadCoreference E fs (path_join path nm @ ''.coref'') s3 = (Some e, s)
        \<longrightarrow> object (Standard_init E fs nm path) = s
          \<and> printed (Standard_init E fs nm path) = [FailedToLoad nm, Printed e]
          \<and> heap s = heap s1 \<and> tokens s = tokens s1 \<and> token_dict s = token_dict s1
          \<and> spans s = spans s2 \<and> span_dict s = span_dict s2
          \<and> mentions s = mentions s3 \<and> mention_dict s = mention_dict s3)
   \<and> (\<forall>s1 s2 s3 s4 e s. loadTokens E fs (path_join path nm @ ''.tokens'') new_object = (None, s1)
          \<and> loadSpans E fs (path_join path nm @ ''.spans'') s1 = (None, s2)
          \<and> loadMentions E fs (path_join path nm @ ''.objects'') s2 = (None, s3)
          \<and> loadCoreference E fs (path_join path nm @ ''.coref'') s3 = (None, s4)
          \<and> loadText fs (path_join path nm @ ''.txt'') s4 = (Some e, s)
        \<longrightarrow> object (Standard_init E fs nm path) = s
          \<and> printed (Standard_init E fs nm path) = [FailedToLoad nm, Printed e]
          \<and> heap s = heap s1 \<and> tokens s = tokens s1 \<and> token_dict s = token_dict s1
          \<and> spans s = spans s2 \<and> span_dict s = span_dict s2
          \<and> mentions s = mentions s3 \<and> mention_dict s = mention_dict s3
          \<and> entities s = entities s4)"
proof (intro conjI allI impI; (elim conjE)?)
  show "propagated (Standard_init E fs nm path) = None"
    by (rule init_never_propagates)
next
  fix e s
  assume "loadTokens E fs (path_join path nm @ ''.tokens'') new_object = (Some e, s)"
  from init_tokens_raise [OF this]
  show "object (Standard_init E fs nm path) = s"
    and "printed (Standard_init E fs nm path) = [FailedToLoad nm, Printed e]"
    by simp_all
next
  fix s1 e s
  assume a: "loadTokens E fs (path_join path nm @ ''.tokens'') new_object = (None, s1)"
    "loadSpans E fs (path_join path nm @ ''.spans'') s1 = (Some e, s)"
  from init_spans_raise [OF a]
  show "object (Standard_init E fs nm path) = s"
    and "printed (Standard_init E fs nm path) = [FailedToLoad nm, Printed e]"
    by simp_all
  from loadSpans_keeps [OF a(2)]
  show "heap s = heap s1" "tokens s = tokens s1" "token_dict s = token_dict s1"
    by simp_all
next
  fix s1 s2 e s
  assume a: "loadTokens E fs (path_join path nm @ ''.tokens'') new_object = (None, s1)"
    "loadSpans E fs (path_join path nm @ ''.spans'') s1 = (None, s2)"
    "loadMentions E fs (path_join path nm @ ''.objects'') s2 = (Some e, s)"
  from init_mentions_raise [OF a]
  show "object (Standard_init E fs nm path) = s"
    and "printed (Standard_init E fs nm path) = [FailedToLoad nm, Printed e]"
    by simp_all
  from loadSpans_keeps [OF a(2)] loadMentions_keeps [OF a(3)]
  show "heap s = heap s1" "tokens s = tokens s1" "token_dict s = token_dict s1"
    "spans s = spans s2" "span_dict s = span_dict s2"
    by simp_all
next
  fix s1 s2 s3 e s
  assume a: "loadTokens E fs (path_join path nm @ ''.tokens'') new_object = (None, s1)"
    "loadSpans E fs (path_join path nm @ ''.spans'') s1 = (None, s2)"
    "loadMentions E fs (path_join path nm @ ''.objects'') s2 = (None, s3)"
    "loadCoreference E fs (path_join path nm @ ''.coref'') s3 = (Some e, s)"
  from init_coreference_raise [OF a]
  show "object (Standard_init E fs nm path) = s"
    and "printed (Standard_init E fs nm path) = [FailedToLoad nm, Printed e]"
    by simp_all
  from loadSpans_keeps [OF a(2)] loadMentions_keeps [OF a(3)] loadCoreference_keeps [OF a(4)]
  show "heap s = heap s1" "tokens s = tokens s1" "token_dict s = token_dict s1"
    "spans s = spans s2" "span_dict s = span_dict s2"
    "mentions s = mentions s3" "mention_dict s = mention_dict s3"
    by simp_all
next
  fix s1 s2 s3 s4 e s
  assume a: "loadTokens E fs (path_join path nm @ ''.tokens'') new_object = (None, s1)"
    "loadSpans E fs (path_join path nm @ ''.spans'') s1 = (None, s2)"
    "loadMentions E fs (path_join path nm @ ''.objects'') s2 = (None, s3)"
    "loadCoreference E fs (path_join path nm @ ''.coref'') s3 = (None, s4)"
    "loadText fs (path_join path nm @ ''.txt'') s4 = (Some e, s)"
  from init_text_raise [OF a]
  show "object (Standard_init E fs nm path) = s"
    and "printed (Standard_init E fs nm path) = [FailedToLoad nm, Printed e]"
    by simp_all
  from loadSpans_keeps [OF a(2)] loadMentions_keeps [OF a(3)] loadCoreference_keeps [OF a(4)]
    loadText_keeps [OF a(5)]
  show "heap s = heap s1" "tokens s = tokens s1" "token_dict s = token_dict s1"
    "spans s = spans s2" "span_dict s = span_dict s2"
    "mentions s = mentions s3" "mention_dict s = mention_dict s3"
    "entities s = entities s4"
    by simp_all
qed


theorem constructor_keeps_completed_stages_witness:
  "fst (loadTokens example_env tokens_only (path_join ''.'' ''d'' @ ''.tokens'') new_object) = None
   \<and> fst (loadSpans example_env tokens_only (path_join ''.'' ''d'' @ ''.spans'')
        (snd (loadTokens example_env tokens_only (path_join ''.'' ''d'' @ ''.tokens'')
           new_object))) = Some (OSError ''./d.spans'')
   \<and> propagated (Standard_init example_env tokens_only ''d'' ''.'') = None
   \<and> printed (Standard_init example_env tokens_only ''d'' ''.'')
       = [FailedToLoad ''d'', Printed (OSError ''./d.spans'')]
   \<and> tokens (object (Standard_init example_env tokens_only ''d'' ''.'')) = Some [0]"
proof -
  let ?T = "loadTokens example_env tokens_only (path_join ''.'' ''d'' @ ''.tokens'') new_object"
  let ?S = "loadSpans example_env tokens_only (path_join ''.'' ''d'' @ ''.spans'') (snd ?T)"
  have t: "fst ?T = None" by code_simp
  have s: "fst ?S = Some (OSError ''./d.spans'')" by code_simp
  have v: "tokens (snd ?T) = Some [0]" by code_simp
  have t': "?T = (None, snd ?T)" using t by (metis prod.collapse)
  have s': "?S = (Some (OSError ''./d.spans''), snd ?S)" using s by (metis prod.collapse)
  from constructor_keeps_completed_stages [of example_env tokens_only "''d''" "''.''"] t' s'
  have "propagated (Standard_init example_env tokens_only ''d'' ''.'') = None"
    and "printed (Standard_init example_env tokens_only ''d'' ''.'')
       = [FailedToLoad ''d'', Printed (OSError ''./d.spans'')]"
    and "object (Standard_init example_env tokens_only ''d'' ''.'') = snd ?S"
    and "tokens (snd ?S) = tokens (snd ?T)"
    by blast+
  with t s v show ?thesis by simp
qed


subsection \<open>The coreference file\<close>

text \<open>
  Claim C7. When the coreference file cannot be opened, \<^verbatim>\<open>loadCoreference\<close> raises
  nothing and leaves \<open>entities\<close> equal to the empty list; nothing else changes.
\<close>

theorem missing_coref_file_gives_no_entities:
  "fs filename = None \<Longrightarrow>
     loadCoreference E fs filename s = (None, s\<lparr>entities := Some []\<rparr>)"
  by (simp add: loadCoreference_def)

theorem missing_coref_file_gives_no_entities_witness:
  "loadCoreference example_env (\<lambda>f. None) ''d.coref'' new_object
     = (None, new_object\<lparr>entities := Some []\<rparr>)"
  using missing_coref_file_gives_no_entities [of "\<lambda>f. None" "''d.coref''" example_env new_object]
  by simp

lemma new_object_name: "name new_object = None"
  by (simp add: new_object_def)


text \<open>
  Claim C10. \<open>name\<close> is assigned only after all five stages have completed. When a stage
  raises, the object the constructor leaves has no \<open>name\<close>, while the attributes of the
  stages that completed before are set.
\<close>

theorem name_is_assigned_last:
  "(\<forall>s1 s2 s3 s4 s5. loadTokens E fs (path_join path nm @ ''.tokens'') new_object = (None, s1)
          \<and> loadSpans E fs (path_join path nm @ ''.spans'') s1 = (None, s2)
          \<and> loadMentions E fs (path_join path nm @ ''.objects'') s2 = (None, s3)
          \<and> loadCoreference E fs (path_join path nm @ ''.coref'') s3 = (None, s4)
          \<and> loadText fs (path_join path nm @ ''.txt'') s4 = (None, s5)
        \<longrightarrow> name (object (Standard_init E fs nm path)) = Some nm)
   \<and> (\<forall>e s. loadTokens E fs (path_join path nm @ ''.tokens'') new_object = (Some e, s)
        \<longrightarrow> name (object (Standard_init E fs nm path)) = None)
   \<and> (\<forall>s1 e s. loadTokens E fs (path_join path nm @ ''.tokens'') new_object = (None, s1)
          \<and> loadSpans E fs (path_join path nm @ ''.spans'') s1 = (Some e, s)
        \<longrightarrow> name (object (Standard_init E fs nm path)) = None
          \<and> tokens (object (Standard_init E fs nm path)) \<noteq> None
          \<and> token_dict (object (Standard_init E fs nm path)) \<noteq> None)
   \<and> (\<forall>s1 s2 e s. loadTokens E fs (path_join path nm @ ''.tokens'') new_object = (None, s1)
          \<and> loadSpans E fs (path_join path nm @ ''.spans'') s1 = (None, s2)
          \<and> loadMentions E fs (path_join path nm @ ''.objects'') s2 = (Some e, s)
        \<longrightarrow> name (object (Standard_init E fs nm path)) = None
          \<and> tokens (object (Standard_init E fs nm path)) \<noteq> None
          \<and> token_dict (object (Standard_init E fs nm path)) \<noteq> None
          \<and> spans (object (Standard_init E fs nm path)) \<noteq> None
          \<and> span_dict (object (Standard_init E fs nm path)) \<noteq> None)
   \<and> (\<forall>s1 s2 s3 e s. loadTokens E fs (path_join path nm @ ''.tokens'') new_object = (None, s1)
          \<and> loadSpans E fs (path_join path nm @ ''.spans'') s1 = (None, s2)
          \<and> loadMentions E fs (path_join path nm @ ''.objects'') s2 = (None, s3)
          \<and> loadCoreference E fs (path_join path nm @ ''.coref'') s3 = (Some e, s)
        \<longrightarrow> name (object (Standard_init E fs nm path)) = None
          \<and> tokens (object (Standard_init E fs nm path)) \<noteq> None
          \<and> token_dict (object (Standard_init E fs nm path)) \<noteq> None
          \<and> spans (object (Standard_init E fs nm path)) \<noteq> None
          \<and> span_dict (object (Standard_init E fs nm path)) \<noteq> None
          \<and> mentions (object (Standard_init E fs nm path)) \<noteq> None
          \<and> mention_dict (object (Standard_init E fs nm path)) \<noteq> None)
   \<and> (\<forall>s1 s2 s3 s4 e s. loadTokens E fs (path_join path nm @ ''.tokens'') new_object = (None, s1)
          \<and> loadSpans E fs (path_join path nm @ ''.spans'') s1 = (None, s2)
          \<and> loadMentions E fs (path_join path nm @ ''.objects'') s2 = (None, s3)
          \<and> loadCoreference E fs (path_join path nm @ ''.coref'') s3 = (None, s4)
          \<and> loadText fs (path_join path nm @ ''.txt'') s4 = (Some e, s)
        \<longrightarrow> name (object (Standard_init E fs nm path)) = None
          \<and> tokens (object (Standard_init E fs nm path)) \<noteq> None
          \<and> token_dict (object (Standard_init E fs nm path)) \<noteq> None
          \<and> spans (object (Standard_init E fs nm path)) \<noteq> None
          \<and> span_dict (object (Standard_init E fs nm path)) \<noteq> None
          \<and> mentions (object (Standard_init E fs nm path)) \<noteq> None
          \<and> mention_dict (object (Standard_init E fs nm path)) \<noteq> None
          \<and> entities (object (Standard_init E fs nm path)) \<noteq> None)"
proof (intro conjI allI impI; (elim conjE)?)
  fix s1 s2 s3 s4 s5
  assume a: "loadTokens E fs (path_join path nm @ ''.tokens'') new_object = (None, s1)"
    "loadSpans E fs (path_join path nm @ ''.spans'') s1 = (None, s2)"
    "loadMentions E fs (path_join path nm @ ''.objects'') s2 = (None, s3)"
    "loadCoreference E fs (path_join path nm @ ''.coref'') s3 = (None, s4)"
    "loadText fs (path_join path nm @ ''.txt'') s4 = (None, s5)"
  from init_complete [OF a]
  show "name (object (Standard_init E fs nm path)) = Some nm" by simp
next
  fix e s
  assume a: "loadTokens E fs (path_join path nm @ ''.tokens'') new_object = (Some e, s)"
  from init_tokens_raise [OF a] stage_name(1) [OF a] new_object_name
  show "name (object (Standard_init E fs nm path)) = None" by simp
next
  fix s1 e s
  assume a: "loadTokens E fs (path_join path nm @ ''.tokens'') new_object = (None, s1)"
    "loadSpans E fs (path_join path nm @ ''.spans'') s1 = (Some e, s)"
  have o: "object (Standard_init E fs nm path) = s"
    using init_spans_raise [OF a] by simp
  from stage_name(1) [OF a(1)] stage_name(2) [OF a(2)] new_object_name o
  show "name (object (Standard_init E fs nm path)) = None" by simp
  from loadTokens_sets [OF a(1)] loadSpans_keeps [OF a(2)] o
  show "tokens (object (Standard_init E fs nm path)) \<noteq> None"
    "token_dict (object (Standard_init E fs nm path)) \<noteq> None"
    by simp_all
next
  fix s1 s2 e s
  assume a: "loadTokens E fs (path_join path nm @ ''.tokens'') new_object = (None, s1)"
    "loadSpans E fs (path_join path nm @ ''.spans'') s1 = (None, s2)"
    "loadMentions E fs (path_join path nm @ ''.objects'') s2 = (Some e, s)"
  have o: "object (Standard_init E fs nm path) = s"
    using init_mentions_raise [OF a] by simp
  from stage_name(1) [OF a(1)] stage_name(2) [OF a(2)] stage_name(3) [OF a(3)]
    new_object_name o
  show "name (object (Standard_init E fs nm path)) = None" by simp
  from loadTokens_sets [OF a(1)] loadSpans_sets [OF a(2)] loadSpans_keeps [OF a(2)]
    loadMentions_keeps [OF a(3)] o
  show "tokens (object (Standard_init E fs nm path)) \<noteq> None"
    "token_dict (object (Standard_init E fs nm path)) \<noteq> None"
    "spans (object (Standard_init E fs nm path)) \<noteq> None"
    "span_dict (object (Standard_init E fs nm path)) \<noteq> None"
    by simp_all
next
  fix s1 s2 s3 e s
  assume a: "loadTokens E fs (path_join path nm @ ''.tokens'') new_object = (None, s1)"
    "loadSpans E fs (path_join path nm @ ''.spans'') s1 = (None, s2)"
    "loadMentions E fs (path_join path nm @ ''.objects'') s2 = (None, s3)"
    "loadCoreference E fs (path_join path nm @ ''.coref'') s3 = (Some e, s)"
  have o: "object (Standard_init E fs nm path) = s"
    using init_coreference_raise [OF a] by simp
  from stage_name(1) [OF a(1)] stage_name(2) [OF a(2)] stage_name(3) [OF a(3)]
    stage_name(4) [OF a(4)] new_object_name o
  show "name (object (Standard_init E fs nm path)) = None" by simp
  from loadTokens_sets [OF a(1)] loadSpans_sets [OF a(2)] loadMentions_sets [OF a(3)]
    loadSpans_keeps [OF a(2)] loadMentions_keeps [OF a(3)] loadCoreference_keeps [OF a(4)] o
  show "tokens (object (Standard_init E fs nm path)) \<noteq> None"
    "token_dict (object (Standard_init E fs nm path)) \<noteq> None"
    "spans (object (Standard_init E fs nm path)) \<noteq> None"
    "span_dict (object (Standard_init E fs nm path)) \<noteq> None"
    "mentions (object (Standard_init E fs nm path)) \<noteq> None"
    "mention_dict (object (Standard_init E fs nm path)) \<noteq> None"
    by simp_all
next
  fix s1 s2 s3 s4 e s
  assume a: "loadTokens E fs (path_join path nm @ ''.tokens'') new_object = (None, s1)"
    "loadSpans E fs (path_join path nm @ ''.spans'') s1 = (None, s2)"
    "loadMentions E fs (path_join path nm @ ''.objects'') s2 = (None, s3)"
    "loadCoreference E fs (path_join path nm @ ''.coref'') s3 = (None, s4)"
    "loadText fs (path_join path nm @ ''.txt'') s4 = (Some e, s)"
  have o: "object (Standard_init E fs nm path) = s"
    using init_text_raise [OF a] by simp
  from stage_name(1) [OF a(1)] stage_name(2) [OF a(2)] stage_name(3) [OF a(3)]
    stage_name(4) [OF a(4)] stage_name(5) [OF a(5)] new_object_name o
  show "name (object (Standard_init E fs nm path)) = None" by simp
  from loadTokens_sets [OF a(1)] loadSpans_sets [OF a(2)] loadMentions_sets [OF a(3)]
    loadCoreference_sets [OF a(4)]
    loadSpans_keeps [OF a(2)] loadMentions_keeps [OF a(3)] loadCoreference_keeps [OF a(4)]
    loadText_keeps [OF a(5)] o
  show "tokens (object (Standard_init E fs nm path)) \<noteq> None"
    "token_dict (object (Standard_init E fs nm path)) \<noteq> None"
    "spans (object (Standard_init E fs nm path)) \<noteq> None"
    "span_dict (object (Standard_init E fs nm path)) \<noteq> None"
    "mentions (object (Standard_init E fs nm path)) \<noteq> None"
    "mention_dict (object (Standard_init E fs nm path)) \<noteq> None"
    "entities (object (Standard_init E fs nm path)) \<noteq> None"
    by simp_all
qed

theorem name_is_assigned_last_witness:
  "name (object (Standard_init example_env whole_document ''d'' ''.'')) = Some ''d''
   \<and> printed (Standard_init example_env no_text ''d'' ''.'')
       = [FailedToLoad ''d'', Printed (OSError ''./d.txt'')]
   \<and> name (object (Standard_init example_env no_text ''d'' ''.'')) = None
   \<and> mentions (object (Standard_init example_env no_text ''d'' ''.'')) \<noteq> None"
proof -
  let ?f = "path_join ''.'' ''d''"
  let ?T = "loadTokens example_env whole_document (?f @ ''.tokens'') new_object"
  let ?S = "loadSpans example_env whole_document (?f @ ''.spans'') (snd ?T)"
  let ?M = "loadMentions example_env whole_document (?f @ ''.objects'') (snd ?S)"
  let ?C = "loadCoreference example_env whole_document (?f @ ''.coref'') (snd ?M)"
  let ?X = "loadText whole_document (?f @ ''.txt'') (snd ?C)"
  have "fst ?T = None" "fst ?S = None" "fst ?M = None" "fst ?C = None" "fst ?X = None"
    by code_simp+
  then have c: "?T = (None, snd ?T)" "?S = (None, snd ?S)" "?M = (None, snd ?M)"
    "?C = (None, snd ?C)" "?X = (None, snd ?X)"
    by (metis prod.collapse)+
  let ?T' = "loadTokens example_env no_text (?f @ ''.tokens'') new_object"
  let ?S' = "loadSpans example_env no_text (?f @ ''.spans'') (snd ?T')"
  let ?M' = "loadMentions example_env no_text (?f @ ''.objects'') (snd ?S')"
  let ?C' = "loadCoreference example_env no_text (?f @ ''.coref'') (snd ?M')"
  let ?X' = "loadText no_text (?f @ ''.txt'') (snd ?C')"
  have "fst ?T' = None" "fst ?S' = None" "fst ?M' = None" "fst ?C' = None"
    "fst ?X' = Some (OSError ''./d.txt'')"
    by code_simp+
  then have r: "?T' = (None, snd ?T')" "?S' = (None, snd ?S')" "?M' = (None, snd ?M')"
    "?C' = (None, snd ?C')" "?X' = (Some (OSError ''./d.txt''), snd ?X')"
    by (metis prod.collapse)+
  have p: "printed (Standard_init example_env no_text ''d'' ''.'')
       = [FailedToLoad ''d'', Printed (OSError ''./d.txt'')]"
    by code_simp
  have cc: "?T = (None, snd ?T) \<and> ?S = (None, snd ?S) \<and> ?M = (None, snd ?M)
    \<and> ?C = (None, snd ?C) \<and> ?X = (None, snd ?X)"
    by (intro conjI) (rule c)+
  have rr: "?T' = (None, snd ?T') \<and> ?S' = (None, snd ?S') \<and> ?M' = (None, snd ?M')
    \<and> ?C' = (None, snd ?C') \<and> ?X' = (Some (OSError ''./d.txt''), snd ?X')"
    by (intro conjI) (rule r)+
  note good = name_is_assigned_last [of example_env whole_document "''.''" "''d''"]
  note bad = name_is_assigned_last [of example_env no_text "''.''" "''d''"]
  have 1: "name (object (Standard_init example_env whole_document ''d'' ''.'')) = Some ''d''"
    by (rule good [THEN conjunct1, rule_format, OF cc])
  have 2: "name (object (Standard_init example_env no_text ''d'' ''.'')) = None
    \<and> mentions (object (Standard_init example_env no_text ''d'' ''.'')) \<noteq> None"
    using bad [THEN conjunct2, THEN conjunct2, THEN conjunct2, THEN conjunct2, THEN conjunct2,
      rule_format, OF rr]
    by simp
  from 1 2 p show ?thesis by simp
qed

subsection \<open>Lines, separators and the span loop\<close>


lemma lines_from_nonempty: "l \<in> set (lines_from cur s) \<Longrightarrow> l \<noteq> []"
  by (induction s arbitrary: cur) (auto split: if_splits)

lemma lines_from_newline:
  "l \<in> set (butlast (lines_from cur s)) \<Longrightarrow> last l = newline"
  by (induction s arbitrary: cur) (auto split: if_splits)

lemma file_lines_nonempty: "l \<in> set (file_lines contents) \<Longrightarrow> l \<noteq> []"
  unfolding file_lines_def by (rule lines_from_nonempty)

lemma span_line_no_skip: "l \<noteq> [] \<Longrightarrow> span_line E filename td index l \<noteq> Continue"
  unfolding span_line_def Let_def
  by (simp split: sum.split)


declare split_from.simps(2) [simp del]

lemma split_from_skip:
  "\<not> prefix sep (c # cs) \<Longrightarrow> split_from sep cur (c # cs) = split_from sep (cur @ [c]) cs"
  by (subst split_from.simps(2)) simp

lemma split_from_missing:
  "sep \<noteq> [] \<Longrightarrow> \<not> sublist sep s \<Longrightarrow> split_from sep cur s = [cur @ s]"
proof (induction s arbitrary: cur)
  case Nil
  then show ?case by simp
next
  case (Cons c cs)
  from Cons.prems(2) have np: "\<not> prefix sep (c # cs)" and ns: "\<not> sublist sep cs"
    by (simp_all add: sublist_Cons_right)
  from Cons.IH [of "cur @ [c]", OF Cons.prems(1) ns]
  have "split_from sep (cur @ [c]) cs = [(cur @ [c]) @ cs]" .
  with split_from_skip [OF np] show ?case by simp
qed

lemma blank_line_one_part:
  assumes "sep \<noteq> []" and "sep \<noteq> [newline]"
  shows "split_from sep [] [newline] = [[newline]]"
proof -
  have "\<not> sublist sep [newline]"
  proof
    assume "sublist sep [newline]"
    then have "prefix sep [newline] \<or> sep = []"
      by (simp add: sublist_Cons_right)
    then have "sep = [] \<or> sep = [newline]"
      by (cases sep) (simp_all add: prefix_Cons)
    with assms show False by simp
  qed
  from split_from_missing [OF assms(1) this] show ?thesis by simp
qed

lemma span_line_blank:
  assumes "SPAN_FILE_SEPARATOR E \<noteq> []" and "SPAN_FILE_SEPARATOR E \<noteq> [newline]"
  shows "span_line E filename td index [newline]
    = Raise (MissingSymbol (SPAN_FILE_SEPARATOR E) index filename)"
  using assms blank_line_one_part [OF assms]
  by (simp add: span_line_def str_split_def)

lemma spans_loop_raise:
  assumes "\<forall>j<length pre. \<forall>e. span_line E filename td (index + j) (pre ! j) \<noteq> Raise e"
    and "span_line E filename td (index + length pre) l = Raise e"
  shows "fst (spans_loop E filename td index (pre @ l # post) acc) = Some e"
  using assms
proof (induction pre arbitrary: index acc)
  case Nil
  then show ?case by simp
next
  case (Cons p pre)
  have p: "span_line E filename td index p \<noteq> Raise e'" for e'
    using Cons.prems(1) [rule_format, of 0 e'] by simp
  have rest: "\<forall>j<length pre. \<forall>e. span_line E filename td (Suc index + j) (pre ! j) \<noteq> Raise e"
  proof (intro allI impI)
    fix j e'
    assume "j < length pre"
    then have "Suc j < length (p # pre)" by simp
    from Cons.prems(1) [rule_format, OF this, of e']
    show "span_line E filename td (Suc index + j) (pre ! j) \<noteq> Raise e'" by simp
  qed
  from Cons.prems(2)
  have l: "span_line E filename td (Suc index + length pre) l = Raise e"
    by simp
  show ?case
  proof (cases "span_line E filename td index p")
    case Continue
    then show ?thesis using Cons.IH [OF rest l] by simp
  next
    case (Raise e')
    with p [of e'] show ?thesis by simp
  next
    case (Append sp)
    then show ?thesis using Cons.IH [OF rest l] by simp
  qed
qed

lemma loadSpans_raise:
  assumes "fs filename = Some contents" and "file_lines contents = pre @ l # post"
    and "\<forall>j<length pre. \<forall>e. span_line E filename (token_dict s) j (pre ! j) \<noteq> Raise e"
    and "span_line E filename (token_dict s) (length pre) l = Raise e"
  shows "fst (loadSpans E fs filename s) = Some e"
proof -
  from assms(3,4)
  have "fst (spans_loop E filename (token_dict s) 0 (pre @ l # post) []) = Some e"
    using spans_loop_raise [of pre E filename "token_dict s" 0 l e post "[]"] by simp
  with assms(1,2) show ?thesis
    by (auto simp: loadSpans_def Let_def split: prod.splits option.splits)
qed

lemma map_raise_length: "map_raise f xs = Inr ys \<Longrightarrow> length ys = length xs"
  by (induction xs arbitrary: ys) (auto split: sum.splits)

lemma span_line_missing_separator:
  assumes "line \<noteq> []" and "\<not> sublist (SPAN_FILE_SEPARATOR E) line"
  shows "span_line E filename td index line
    = Raise (MissingSymbol (SPAN_FILE_SEPARATOR E) index filename)"
proof -
  from assms(2) have ne: "SPAN_FILE_SEPARATOR E \<noteq> []" by auto
  from split_from_missing [OF ne assms(2), of "[]"]
  have "str_split (SPAN_FILE_SEPARATOR E) line = Inr [line]"
    using ne by (simp add: str_split_def)
  with assms(1) show ?thesis by (simp add: span_line_def)
qed

lemma two_parts_nonempty:
  assumes "str_split sep line = Inr [left, right]"
  shows "line \<noteq> []"
proof
  assume "line = []"
  with assms show False by (simp add: str_split_def split: if_splits)
qed

lemma span_line_missing_left:
  assumes "str_split (SPAN_FILE_SEPARATOR E) line = Inr [left, right]"
    and "str_split (DEFAULT_DELIMITER E) left = Inr ls"
    and "length (filter (\<lambda>i. length i > 0) ls) < 6"
  shows "span_line E filename td index line = Raise (MissingLeftParts index filename)"
  using assms two_parts_nonempty [OF assms(1)]
  by (simp add: span_line_def)

lemma span_line_missing_right:
  assumes "str_split (SPAN_FILE_SEPARATOR E) line = Inr [left, right]"
    and "str_split (DEFAULT_DELIMITER E) left = Inr ls"
    and "6 \<le> length (filter (\<lambda>i. length i > 0) ls)"
    and "Span_init (filter (\<lambda>i. length i > 0) ls) = Inr new_span"
    and "str_split (DEFAULT_DELIMITER E) right = Inr rs"
    and "int (length (filter (\<lambda>i. length i > 0) rs)) \<noteq> 2 * span_ntokens new_span"
  shows "span_line E filename td index line = Raise (MissingRightParts index filename)"
  using assms two_parts_nonempty [OF assms(1)]
  by (simp add: span_line_def)

lemma slice_to_length:
  "int (length xs) = 2 * n \<Longrightarrow> int (length (slice_to n xs)) = n"
  by (auto simp: slice_to_def)

lemma span_line_token_count:
  assumes "span_line E filename td index line = Append sp"
  shows "int (length (span_tokens sp)) = span_ntokens sp"
  using assms unfolding span_line_def Let_def
  by (auto split: if_splits sum.splits dest!: map_raise_length simp: slice_to_length)

lemma spans_loop_token_count:
  assumes "\<forall>sp\<in>set acc. int (length (span_tokens sp)) = span_ntokens sp"
  shows "\<forall>sp\<in>set (snd (spans_loop E filename td index ls acc)).
    int (length (span_tokens sp)) = span_ntokens sp"
  using assms
proof (induction ls arbitrary: index acc)
  case Nil
  then show ?case by simp
next
  case (Cons l ls)
  show ?case
  proof (cases "span_line E filename td index l")
    case Continue
    with Cons.IH [OF Cons.prems] show ?thesis by simp
  next
    case (Raise e)
    with Cons.prems show ?thesis by simp
  next
    case (Append sp)
    from span_line_token_count [OF Append] Cons.prems
    have "\<forall>x\<in>set (acc @ [sp]). int (length (span_tokens x)) = span_ntokens x"
      by simp
    from Cons.IH [OF this] Append show ?thesis by simp
  qed
qed

lemma loadSpans_token_count:
  assumes "spans (snd (loadSpans E fs filename s)) = Some sps"
  shows "\<forall>sp\<in>set sps. int (length (span_tokens sp)) = span_ntokens sp"
proof (cases "fs filename")
  case None
  with assms show ?thesis by (simp add: loadSpans_def)
next
  case (Some contents)
  have "\<forall>sp\<in>set (snd (spans_loop E filename (token_dict s) 0 (file_lines contents) [])).
    int (length (span_tokens sp)) = span_ntokens sp"
    by (rule spans_loop_token_count) simp
  with Some assms show ?thesis
    by (auto simp: loadSpans_def Let_def split: prod.splits option.splits)
qed

subsection \<open>Span records\<close>

text \<open>
  Claim C3. A span record without the separator, with fewer than six left fields, or
  with a number of right fields other than twice the declared token count makes
  \<^verbatim>\<open>loadSpans\<close> raise the exception that names the line index and the file; a record
  that raises ends the load of the file with that exception. Every span that is loaded
  has as many resolved tokens as its declared token count.
\<close>

theorem span_record_validation:
  "(line \<noteq> [] \<and> \<not> sublist (SPAN_FILE_SEPARATOR E) line
      \<longrightarrow> span_line E filename td index line
            = Raise (MissingSymbol (SPAN_FILE_SEPARATOR E) index filename))
   \<and> (str_split (SPAN_FILE_SEPARATOR E) line = Inr [left, right]
        \<and> str_split (DEFAULT_DELIMITER E) left = Inr ls
        \<and> length (filter (\<lambda>i. length i > 0) ls) < 6
      \<longrightarrow> span_line E filename td index line = Raise (MissingLeftParts index filename))
   \<and> (str_split (SPAN_FILE_SEPARATOR E) line = Inr [left, right]
        \<and> str_split (DEFAULT_DELIMITER E) left = Inr ls
        \<and> 6 \<le> length (filter (\<lambda>i. length i > 0) ls)
        \<and> Span_init (filter (\<lambda>i. length i > 0) ls) = Inr new_span
        \<and> str_split (DEFAULT_DELIMITER E) right = Inr rs
        \<and> int (length (filter (\<lambda>i. length i > 0) rs)) \<noteq> 2 * span_ntokens new_span
      \<longrightarrow> span_line E filename td index line = Raise (MissingRightParts index filename))
   \<and> (\<forall>sp. span_line E filename td index line = Append sp
      \<longrightarrow> int (length (span_tokens sp)) = span_ntokens sp)
   \<and> (\<forall>contents pre l post e.
        fs filename = Some contents \<and> file_lines contents = pre @ l # post
        \<and> (\<forall>j<length pre. \<forall>e'. span_line E filename (token_dict s) j (pre ! j) \<noteq> Raise e')
        \<and> span_line E filename (token_dict s) (length pre) l = Raise e
      \<longrightarrow> fst (loadSpans E fs filename s) = Some e)
   \<and> (\<forall>sps. spans (snd (loadSpans E fs filename s)) = Some sps
      \<longrightarrow> (\<forall>sp\<in>set sps. int (length (span_tokens sp)) = span_ntokens sp))"
proof (intro conjI allI impI ballI; (elim conjE)?)
  assume "line \<noteq> []" "\<not> sublist (SPAN_FILE_SEPARATOR E) line"
  then show "span_line E filename td index line
      = Raise (MissingSymbol (SPAN_FILE_SEPARATOR E) index filename)"
    by (rule span_line_missing_separator)
next
  assume "str_split (SPAN_FILE_SEPARATOR E) line = Inr [left, right]"
    "str_split (DEFAULT_DELIMITER E) left = Inr ls"
    "length (filter (\<lambda>i. length i > 0) ls) < 6"
  then show "span_line E filename td index line = Raise (MissingLeftParts index filename)"
    by (rule span_line_missing_left)
next
  assume "str_split (SPAN_FILE_SEPARATOR E) line = Inr [left, right]"
    "str_split (DEFAULT_DELIMITER E) left = Inr ls"
    "6 \<le> length (filter (\<lambda>i. length i > 0) ls)"
    "Span_init (filter (\<lambda>i. length i > 0) ls) = Inr new_span"
    "str_split (DEFAULT_DELIMITER E) right = Inr rs"
    "int (length (filter (\<lambda>i. length i > 0) rs)) \<noteq> 2 * span_ntokens new_span"
  then show "span_line E filename td index line = Raise (MissingRightParts index filename)"
    by (rule span_line_missing_right)
next
  fix sp
  assume "span_line E filename td index line = Append sp"
  then show "int (length (span_tokens sp)) = span_ntokens sp"
    by (rule span_line_token_count)
next
  fix contents pre l post e
  assume "fs filename = Some contents" "file_lines contents = pre @ l # post"
    "\<forall>j<length pre. \<forall>e'. span_line E filename (token_dict s) j (pre ! j) \<noteq> Raise e'"
    "span_line E filename (token_dict s) (length pre) l = Raise e"
  then show "fst (loadSpans E fs filename s) = Some e"
    by (rule loadSpans_raise)
next
  fix sps sp
  assume "spans (snd (loadSpans E fs filename s)) = Some sps" "sp \<in> set sps"
  with loadSpans_token_count show "int (length (span_tokens sp)) = span_ntokens sp"
    by blast
qed

theorem span_record_validation_witness:
  "span_line example_env ''d.spans'' None 3 ''11 org 5 2 2 1''
     = Raise (MissingSymbol ''#'' 3 ''d.spans'')
   \<and> span_line example_env ''d.spans'' None 0 ''11 org # 2 of''
     = Raise (MissingLeftParts 0 ''d.spans'')
   \<and> span_line example_env ''d.spans'' None 0 ''10 org 0 4 1 1 # 1 2 Bank''
     = Raise (MissingRightParts 0 ''d.spans'')
   \<and> span_line example_env ''d.spans'' (Some [1 \<mapsto> 0]) 0 ''10 org 0 4 1 1 # 1 Bank''
       = Append bank_span
   \<and> int (length (span_tokens bank_span)) = span_ntokens bank_span
   \<and> fst (loadSpans example_env two_span_lines ''d.spans'' one_token)
     = Some (MissingSymbol ''#'' 1 ''d.spans'')
   \<and> spans (snd (loadSpans example_env two_span_lines ''d.spans'' one_token))
       = Some [bank_span]"
proof -
  have h: "span_line example_env ''d.spans'' (Some [1 \<mapsto> 0]) 0 ''10 org 0 4 1 1 # 1 Bank''
    = Append bank_span"
    by code_simp
  from span_record_validation [of "''10 org 0 4 1 1 # 1 Bank''" example_env "''d.spans''"
      "Some [1 \<mapsto> 0]" 0,
      THEN conjunct2, THEN conjunct2, THEN conjunct2, THEN conjunct1, rule_format, OF h]
  have count: "int (length (span_tokens bank_span)) = span_ntokens bank_span" .
  have loaded: "spans (snd (loadSpans example_env two_span_lines ''d.spans'' one_token))
       = Some [bank_span]"
    by code_simp
  show ?thesis
proof (intro conjI)
  have h: "''11 org 5 2 2 1'' \<noteq> [] \<and> \<not> sublist (SPAN_FILE_SEPARATOR example_env) ''11 org 5 2 2 1''"
    by code_simp
  have sep: "SPAN_FILE_SEPARATOR example_env = ''#''" by code_simp
  from span_record_validation [of "''11 org 5 2 2 1''" example_env "''d.spans''" None 3,
      THEN conjunct1, rule_format, OF h] sep
  show "span_line example_env ''d.spans'' None 3 ''11 org 5 2 2 1''
     = Raise (MissingSymbol ''#'' 3 ''d.spans'')"
    by simp
next
  have h: "str_split (SPAN_FILE_SEPARATOR example_env) ''11 org # 2 of'' = Inr [''11 org '', '' 2 of'']
    \<and> str_split (DEFAULT_DELIMITER example_env) ''11 org '' = Inr [''11'', ''org'', []]
    \<and> length (filter (\<lambda>i. length i > 0) [''11'', ''org'', []]) < 6"
    by code_simp
  from span_record_validation [of "''11 org # 2 of''" example_env "''d.spans''" None 0,
      THEN conjunct2, THEN conjunct1, rule_format, OF h]
  show "span_line example_env ''d.spans'' None 0 ''11 org # 2 of''
     = Raise (MissingLeftParts 0 ''d.spans'')" .
next
  let ?sp = "\<lparr>span_id = 10, span_tag = ''org'', span_start = 0, span_nchars = 4,
    span_start_token = 1, span_ntokens = 1, span_tokens = [], span_text = []\<rparr>"
  have h: "str_split (SPAN_FILE_SEPARATOR example_env) ''10 org 0 4 1 1 # 1 2 Bank''
      = Inr [''10 org 0 4 1 1 '', '' 1 2 Bank'']
    \<and> str_split (DEFAULT_DELIMITER example_env) ''10 org 0 4 1 1 ''
      = Inr [''10'', ''org'', ''0'', ''4'', ''1'', ''1'', []]
    \<and> 6 \<le> length (filter (\<lambda>i. length i > 0) [''10'', ''org'', ''0'', ''4'', ''1'', ''1'', []])
    \<and> Span_init (filter (\<lambda>i. length i > 0) [''10'', ''org'', ''0'', ''4'', ''1'', ''1'', []])
      = Inr ?sp
    \<and> str_split (DEFAULT_DELIMITER example_env) '' 1 2 Bank'' = Inr [[], ''1'', ''2'', ''Bank'']
    \<and> int (length (filter (\<lambda>i. length i > 0) [[], ''1'', ''2'', ''Bank''])) \<noteq> 2 * span_ntokens ?sp"
    by code_simp
  from span_record_validation [of "''10 org 0 4 1 1 # 1 2 Bank''" example_env "''d.spans''" None 0,
      THEN conjunct2, THEN conjunct2, THEN conjunct1, rule_format, OF h]
  show "span_line example_env ''d.spans'' None 0 ''10 org 0 4 1 1 # 1 2 Bank''
     = Raise (MissingRightParts 0 ''d.spans'')" .
next
  show "span_line example_env ''d.spans'' (Some [1 \<mapsto> 0]) 0 ''10 org 0 4 1 1 # 1 Bank''
       = Append bank_span"
    by (rule h)
next
  show "int (length (span_tokens bank_span)) = span_ntokens bank_span"
    by (rule count)
next
  let ?pre = "[''10 org 0 4 1 1 # 1 Bank'' @ [newline]]"
  let ?l = "''11 org 5 2 2 1'' @ [newline]"
  have h: "two_span_lines ''d.spans''
        = Some (''10 org 0 4 1 1 # 1 Bank'' @ [newline] @ ''11 org 5 2 2 1'' @ [newline])
    \<and> file_lines (''10 org 0 4 1 1 # 1 Bank'' @ [newline] @ ''11 org 5 2 2 1'' @ [newline])
        = ?pre @ ?l # []
    \<and> (\<forall>j<length ?pre. \<forall>e'.
          span_line example_env ''d.spans'' (token_dict one_token) j (?pre ! j) \<noteq> Raise e')
    \<and> span_line example_env ''d.spans'' (token_dict one_token) (length ?pre) ?l
        = Raise (MissingSymbol ''#'' 1 ''d.spans'')"
  proof (intro conjI allI impI)
    show "two_span_lines ''d.spans''
        = Some (''10 org 0 4 1 1 # 1 Bank'' @ [newline] @ ''11 org 5 2 2 1'' @ [newline])"
      by code_simp
    show "file_lines (''10 org 0 4 1 1 # 1 Bank'' @ [newline] @ ''11 org 5 2 2 1'' @ [newline])
        = ?pre @ ?l # []"
      by code_simp
    show "span_line example_env ''d.spans'' (token_dict one_token) (length ?pre) ?l
        = Raise (MissingSymbol ''#'' 1 ''d.spans'')"
      by code_simp
    fix j e'
    assume "j < length ?pre"
    then have j: "j = 0" by simp
    have "span_line example_env ''d.spans'' (token_dict one_token) 0
        (''10 org 0 4 1 1 # 1 Bank'' @ [newline])
      = Append \<lparr>span_id = 10, span_tag = ''org'', span_start = 0, span_nchars = 4,
          span_start_token = 1, span_ntokens = 1, span_tokens = [0], span_text = ''Bank''\<rparr>"
      by code_simp
    with j show "span_line example_env ''d.spans'' (token_dict one_token) j (?pre ! j) \<noteq> Raise e'"
      by simp
  qed
  from span_record_validation [of _ example_env "''d.spans''" _ _ _ _ _ _ _ two_span_lines one_token,
      THEN conjunct2, THEN conjunct2, THEN conjunct2, THEN conjunct2, THEN conjunct1,
      rule_format, OF h]
  show "fst (loadSpans example_env two_span_lines ''d.spans'' one_token)
     = Some (MissingSymbol ''#'' 1 ''d.spans'')" .
next
  show "spans (snd (loadSpans example_env two_span_lines ''d.spans'' one_token))
       = Some [bank_span]"
    by (rule loaded)
qed
qed


text \<open>
  Claim C9. Every line that iterating over the file yields is non-empty (all but the
  last end with the newline), so the test for an empty line never succeeds and no line
  is skipped. A line that holds only the newline splits into one part at the separator
  and raises the exception for the missing separator, which ends the load.
\<close>

theorem blank_line_is_not_skipped:
  "(\<forall>l\<in>set (file_lines contents). l \<noteq> [] \<and> span_line E filename td index l \<noteq> Continue)
   \<and> (\<forall>l\<in>set (butlast (file_lines contents)). last l = newline)
   \<and> (SPAN_FILE_SEPARATOR E \<noteq> [] \<and> SPAN_FILE_SEPARATOR E \<noteq> [newline]
      \<longrightarrow> str_split (SPAN_FILE_SEPARATOR E) [newline] = Inr [[newline]]
        \<and> span_line E filename td index [newline]
            = Raise (MissingSymbol (SPAN_FILE_SEPARATOR E) index filename))
   \<and> (\<forall>pre post.
        SPAN_FILE_SEPARATOR E \<noteq> [] \<and> SPAN_FILE_SEPARATOR E \<noteq> [newline]
        \<and> fs filename = Some contents \<and> file_lines contents = pre @ [newline] # post
        \<and> (\<forall>j<length pre. \<forall>e. span_line E filename (token_dict s) j (pre ! j) \<noteq> Raise e)
      \<longrightarrow> fst (loadSpans E fs filename s)
            = Some (MissingSymbol (SPAN_FILE_SEPARATOR E) (length pre) filename))"
proof (intro conjI allI impI ballI; (elim conjE)?)
  fix l
  assume l: "l \<in> set (file_lines contents)"
  then show "l \<noteq> []" by (rule file_lines_nonempty)
  then show "span_line E filename td index l \<noteq> Continue" by (rule span_line_no_skip)
next
  fix l
  assume "l \<in> set (butlast (file_lines contents))"
  then show "last l = newline"
    unfolding file_lines_def by (rule lines_from_newline)
next
  assume a: "SPAN_FILE_SEPARATOR E \<noteq> []" "SPAN_FILE_SEPARATOR E \<noteq> [newline]"
  from blank_line_one_part [OF a] a(1)
  show "str_split (SPAN_FILE_SEPARATOR E) [newline] = Inr [[newline]]"
    by (simp add: str_split_def)
  from a show "span_line E filename td index [newline]
      = Raise (MissingSymbol (SPAN_FILE_SEPARATOR E) index filename)"
    by (rule span_line_blank)
next
  fix pre post
  assume a: "SPAN_FILE_SEPARATOR E \<noteq> []" "SPAN_FILE_SEPARATOR E \<noteq> [newline]"
    and f: "fs filename = Some contents" "file_lines contents = pre @ [newline] # post"
    and p: "\<forall>j<length pre. \<forall>e. span_line E filename (token_dict s) j (pre ! j) \<noteq> Raise e"
  from f p span_line_blank [OF a]
  show "fst (loadSpans E fs filename s)
      = Some (MissingSymbol (SPAN_FILE_SEPARATOR E) (length pre) filename)"
    by (rule loadSpans_raise)
qed


theorem blank_line_is_not_skipped_witness:
  "file_lines (''10 org 0 4 1 1 # 1 Bank'' @ [newline] @ [newline])
     = [''10 org 0 4 1 1 # 1 Bank'' @ [newline], [newline]]
   \<and> span_line example_env ''d.spans'' (Some [1 \<mapsto> 0]) 1 [newline] \<noteq> Continue
   \<and> str_split ''#'' [newline] = Inr [[newline]]
   \<and> span_line example_env ''d.spans'' (Some [1 \<mapsto> 0]) 1 [newline]
       = Raise (MissingSymbol ''#'' 1 ''d.spans'')
   \<and> fst (loadSpans example_env blank_second_line ''d.spans'' one_token)
       = Some (MissingSymbol ''#'' 1 ''d.spans'')"
proof -
  let ?c = "''10 org 0 4 1 1 # 1 Bank'' @ [newline] @ [newline]"
  let ?pre = "[''10 org 0 4 1 1 # 1 Bank'' @ [newline]]"
  note T = blank_line_is_not_skipped [of ?c example_env "''d.spans''" "Some [1 \<mapsto> 0]" 1
      blank_second_line one_token]
  have sep: "SPAN_FILE_SEPARATOR example_env = ''#''" by code_simp
  have ok: "SPAN_FILE_SEPARATOR example_env \<noteq> [] \<and> SPAN_FILE_SEPARATOR example_env \<noteq> [newline]"
    by code_simp
  have ls: "file_lines ?c = ?pre @ [newline] # []" by code_simp
  then have mem: "[newline] \<in> set (file_lines ?c)" by simp
  from T [THEN conjunct1, rule_format, OF mem]
  have 1: "span_line example_env ''d.spans'' (Some [1 \<mapsto> 0]) 1 [newline] \<noteq> Continue"
    by simp
  from T [THEN conjunct2, THEN conjunct2, THEN conjunct1, rule_format, OF ok] sep
  have 2: "str_split ''#'' [newline] = Inr [[newline]]"
    and 3: "span_line example_env ''d.spans'' (Some [1 \<mapsto> 0]) 1 [newline]
       = Raise (MissingSymbol ''#'' 1 ''d.spans'')"
    by simp_all
  have f: "blank_second_line ''d.spans'' = Some ?c" by code_simp
  have td: "token_dict one_token = Some [1 \<mapsto> 0]" by (simp add: one_token_def new_object_def)
  have p: "\<forall>j<length ?pre. \<forall>e.
      span_line example_env ''d.spans'' (token_dict one_token) j (?pre ! j) \<noteq> Raise e"
  proof (intro allI impI)
    fix j e
    assume "j < length ?pre"
    then have j: "j = 0" by simp
    have "span_line example_env ''d.spans'' (token_dict one_token) 0
        (''10 org 0 4 1 1 # 1 Bank'' @ [newline]) = Append bank_span"
      by code_simp
    with j show "span_line example_env ''d.spans'' (token_dict one_token) j (?pre ! j) \<noteq> Raise e"
      by simp
  qed
  have h: "SPAN_FILE_SEPARATOR example_env \<noteq> [] \<and> SPAN_FILE_SEPARATOR example_env \<noteq> [newline]
    \<and> blank_second_line ''d.spans'' = Some ?c \<and> file_lines ?c = ?pre @ [newline] # []
    \<and> (\<forall>j<length ?pre. \<forall>e.
      span_line example_env ''d.spans'' (token_dict one_token) j (?pre ! j) \<noteq> Raise e)"
    using ok f ls p by blast
  from T [THEN conjunct2, THEN conjunct2, THEN conjunct2, rule_format, OF h] sep
  have 4: "fst (loadSpans example_env blank_second_line ''d.spans'' one_token)
       = Some (MissingSymbol ''#'' 1 ''d.spans'')"
    by simp
  from ls 1 2 3 4 show ?thesis by simp
qed

subsection \<open>Blocks of the coreference file\<close>

lemma buffer_of_empty: "buffer_of block = [] \<longleftrightarrow> block = []"
  by (cases block) (simp_all add: buffer_of_def)

lemma buffer_of_Cons:
  "buffer_of (l # block)
    = str_strip [CHR '' '', CHR 0x09, CHR 0x0A, CHR 0x0D] l @ [newline] @ buffer_of block"
  by (simp add: buffer_of_def)

lemma coref_loop_block:
  "\<forall>l\<in>set block. \<not> blank_line l \<Longrightarrow>
     coref_loop E md sd (block @ rest) buffer acc
       = coref_loop E md sd rest (buffer @ buffer_of block) acc"
proof (induction block arbitrary: buffer)
  case Nil
  then show ?case by (simp add: buffer_of_def)
next
  case (Cons l block)
  from Cons.prems have l: "str_strip [CHR '' '', CHR 0x09, CHR 0x0A, CHR 0x0D] l \<noteq> []"
    by (simp add: blank_line_def)
  from Cons.prems have "\<forall>l\<in>set block. \<not> blank_line l" by simp
  from Cons.IH [OF this] l show ?case
    by (simp add: Let_def buffer_of_Cons)
qed

lemma coref_loop_blanks:
  "\<forall>l\<in>set blanks. blank_line l \<Longrightarrow>
     coref_loop E md sd (blanks @ rest) [] acc = coref_loop E md sd rest [] acc"
  by (induction blanks) (simp_all add: blank_line_def Let_def)

lemma coref_loop_terminate:
  assumes "blank_line l" and "buffer \<noteq> []"
  shows "coref_loop E (Some md) (Some sd) (l # rest) buffer acc
    = (case Entity_fromStandard E buffer md sd of
         Inl e \<Rightarrow> (Some e, buffer, acc)
       | Inr e \<Rightarrow> coref_loop E (Some md) (Some sd) rest [] (acc @ [e]))"
  using assms by (simp add: blank_line_def Let_def)

lemma coref_loop_segment:
  assumes "b \<noteq> []" and "\<forall>l\<in>set b. \<not> blank_line l"
    and "bl \<noteq> []" and "\<forall>l\<in>set bl. blank_line l"
  shows "coref_loop E (Some md) (Some sd) ((b @ bl) @ rest) [] acc
    = (case Entity_fromStandard E (buffer_of b) md sd of
         Inl e \<Rightarrow> (Some e, buffer_of b, acc)
       | Inr e \<Rightarrow> coref_loop E (Some md) (Some sd) rest [] (acc @ [e]))"
proof -
  from assms(3) obtain t bl' where bl: "bl = t # bl'" by (cases bl) auto
  with assms(4) have t: "blank_line t" and bl': "\<forall>l\<in>set bl'. blank_line l" by simp_all
  from assms(1) have ne: "buffer_of b \<noteq> []" by (simp add: buffer_of_empty)
  have "coref_loop E (Some md) (Some sd) ((b @ bl) @ rest) [] acc
    = coref_loop E (Some md) (Some sd) (t # bl' @ rest) (buffer_of b) acc"
    using coref_loop_block [OF assms(2), of E "Some md" "Some sd" "bl @ rest" "[]" acc] bl
    by simp
  also have "\<dots> = (case Entity_fromStandard E (buffer_of b) md sd of
         Inl e \<Rightarrow> (Some e, buffer_of b, acc)
       | Inr e \<Rightarrow> coref_loop E (Some md) (Some sd) (bl' @ rest) [] (acc @ [e]))"
    by (rule coref_loop_terminate [OF t ne])
  also have "\<dots> = (case Entity_fromStandard E (buffer_of b) md sd of
         Inl e \<Rightarrow> (Some e, buffer_of b, acc)
       | Inr e \<Rightarrow> coref_loop E (Some md) (Some sd) rest [] (acc @ [e]))"
    by (simp add: coref_loop_blanks [OF bl'] split: sum.split)
  finally show ?thesis .
qed

lemma coref_loop_segments:
  assumes "\<forall>(b, bl)\<in>set segs.
      b \<noteq> [] \<and> (\<forall>l\<in>set b. \<not> blank_line l) \<and> bl \<noteq> [] \<and> (\<forall>l\<in>set bl. blank_line l)"
    and "map_raise (\<lambda>(b, bl). Entity_fromStandard E (buffer_of b) md sd) segs = Inr es"
  shows "coref_loop E (Some md) (Some sd) (concat (map (\<lambda>(b, bl). b @ bl) segs) @ rest) [] acc
    = coref_loop E (Some md) (Some sd) rest [] (acc @ es)"
  using assms
proof (induction segs arbitrary: acc es)
  case Nil
  then show ?case by simp
next
  case (Cons seg segs)
  obtain b bl where seg: "seg = (b, bl)" by (cases seg)
  from Cons.prems(1) seg
  have b: "b \<noteq> []" "\<forall>l\<in>set b. \<not> blank_line l" "bl \<noteq> []" "\<forall>l\<in>set bl. blank_line l"
    by simp_all
  from Cons.prems(1)
  have rest: "\<forall>(b, bl)\<in>set segs.
      b \<noteq> [] \<and> (\<forall>l\<in>set b. \<not> blank_line l) \<and> bl \<noteq> [] \<and> (\<forall>l\<in>set bl. blank_line l)"
    by simp
  from Cons.prems(2) seg obtain e es' where
    e: "Entity_fromStandard E (buffer_of b) md sd = Inr e"
    and es': "map_raise (\<lambda>(b, bl). Entity_fromStandard E (buffer_of b) md sd) segs = Inr es'"
    and es: "es = e # es'"
    by (auto split: sum.splits)
  have "coref_loop E (Some md) (Some sd)
      (concat (map (\<lambda>(b, bl). b @ bl) (seg # segs)) @ rest) [] acc
    = coref_loop E (Some md) (Some sd)
      ((b @ bl) @ (concat (map (\<lambda>(b, bl). b @ bl) segs) @ rest)) [] acc"
    using seg by simp
  also have "\<dots> = coref_loop E (Some md) (Some sd)
      (concat (map (\<lambda>(b, bl). b @ bl) segs) @ rest) [] (acc @ [e])"
    using coref_loop_segment [OF b, of E md sd "concat (map (\<lambda>(b, bl). b @ bl) segs) @ rest" acc] e
    by simp
  also have "\<dots> = coref_loop E (Some md) (Some sd) rest [] ((acc @ [e]) @ es')"
    by (rule Cons.IH [OF rest es'])
  finally show ?case using es by simp
qed

lemma fromStandard_resolved:
  "Entity_fromStandard E buffer md sd = Inr e \<Longrightarrow> \<exists>ms. e = Resolved ms"
  by (auto simp: Entity_fromStandard_def split: sum.splits)

lemma map_raise_all:
  "map_raise f xs = Inr ys \<Longrightarrow> \<forall>y\<in>set ys. \<exists>x\<in>set xs. f x = Inr y"
  by (induction xs arbitrary: ys) (auto split: sum.splits)



text \<open>
  Claim C6. Take a coreference file that can be opened and whose lines are some blank
  lines, then blocks of non-blank lines, each followed by at least one blank line, then
  a trailing block of non-blank lines. When every block resolves, \<^verbatim>\<open>loadCoreference\<close>
  yields one entity built by \<^verbatim>\<open>Entity.fromStandard\<close> for each block that a blank line
  ends, in order, and, when the trailing block is not empty, one more entity built by
  \<^verbatim>\<open>Entity.fromTest\<close> from it: the first are resolved entities, the last is a raw one.
\<close>

theorem coreference_blocks:
  assumes opened: "fs filename = Some contents"
    and lines: "file_lines contents = lead @ concat (map (\<lambda>(b, bl). b @ bl) segs) @ trailing"
    and lead: "\<forall>l\<in>set lead. blank_line l"
    and segs: "\<forall>(b, bl)\<in>set segs.
      b \<noteq> [] \<and> (\<forall>l\<in>set b. \<not> blank_line l) \<and> bl \<noteq> [] \<and> (\<forall>l\<in>set bl. blank_line l)"
    and trailing: "\<forall>l\<in>set trailing. \<not> blank_line l"
    and dicts: "mention_dict s = Some md" "span_dict s = Some sd"
    and resolved:
      "map_raise (\<lambda>(b, bl). Entity_fromStandard E (buffer_of b) md sd) segs = Inr es"
  shows "loadCoreference E fs filename s
      = (None, s\<lparr>entities := Some (es @ (if trailing = [] then []
                                          else [Entity_fromTest (buffer_of trailing)]))\<rparr>)
    \<and> length es = length segs
    \<and> (\<forall>e\<in>set es. \<exists>ms. e = Resolved ms)
    \<and> Entity_fromTest (buffer_of trailing) = Raw (buffer_of trailing)"
proof (intro conjI)
  have "coref_loop E (Some md) (Some sd) (file_lines contents) [] []
    = coref_loop E (Some md) (Some sd) (concat (map (\<lambda>(b, bl). b @ bl) segs) @ trailing) [] []"
    unfolding lines by (rule coref_loop_blanks [OF lead])
  also have "\<dots> = coref_loop E (Some md) (Some sd) trailing [] ([] @ es)"
    by (rule coref_loop_segments [OF segs resolved])
  also have "\<dots> = coref_loop E (Some md) (Some sd) [] ([] @ buffer_of trailing) es"
    using coref_loop_block [OF trailing, of E "Some md" "Some sd" "[]" "[]" es] by simp
  finally have loop: "coref_loop E (Some md) (Some sd) (file_lines contents) [] []
    = (None, buffer_of trailing, es)"
    by simp
  show "loadCoreference E fs filename s
      = (None, s\<lparr>entities := Some (es @ (if trailing = [] then []
                                          else [Entity_fromTest (buffer_of trailing)]))\<rparr>)"
    using opened dicts loop by (simp add: loadCoreference_def buffer_of_empty)
  from map_raise_length [OF resolved] show "length es = length segs" .
  show "\<forall>e\<in>set es. \<exists>ms. e = Resolved ms"
  proof
    fix e
    assume "e \<in> set es"
    then have "\<exists>seg\<in>set segs.
        (\<lambda>(b, bl). Entity_fromStandard E (buffer_of b) md sd) seg = Inr e"
      by (rule map_raise_all [OF resolved, rule_format])
    then obtain b bl where "Entity_fromStandard E (buffer_of b) md sd = Inr e"
      by auto
    then show "\<exists>ms. e = Resolved ms"
      by (rule fromStandard_resolved)
  qed
  show "Entity_fromTest (buffer_of trailing) = Raw (buffer_of trailing)"
    by (simp add: Entity_fromTest_def)
qed

theorem coreference_blocks_witness:
  "loadCoreference example_env coref_file ''d.coref'' two_mentions
     = (None, two_mentions\<lparr>entities :=
          Some [Resolved [first_mention, second_mention], Raw (''2'' @ [newline])]\<rparr>)"
proof -
  let ?c = "''1'' @ [newline] @ ''2'' @ [newline] @ [newline] @ ''2''"
  let ?segs = "[([''1'' @ [newline], ''2'' @ [newline]], [[newline]])]"
  let ?md = "[1 \<mapsto> first_mention, 2 \<mapsto> second_mention]"
  have 1: "coref_file ''d.coref'' = Some ?c" by code_simp
  have 2: "file_lines ?c = [] @ concat (map (\<lambda>(b, bl). b @ bl) ?segs) @ [''2'']" by code_simp
  have 3: "\<forall>l\<in>set []. blank_line l" by simp
  have 4: "\<forall>(b, bl)\<in>set ?segs.
      b \<noteq> [] \<and> (\<forall>l\<in>set b. \<not> blank_line l) \<and> bl \<noteq> [] \<and> (\<forall>l\<in>set bl. blank_line l)"
    by code_simp
  have 5: "\<forall>l\<in>set [''2'']. \<not> blank_line l" by code_simp
  have 6: "mention_dict two_mentions = Some ?md" "span_dict two_mentions = Some Map.empty"
    by (simp_all add: two_mentions_def new_object_def)
  have 7: "map_raise (\<lambda>(b, bl). Entity_fromStandard example_env (buffer_of b) ?md Map.empty) ?segs
    = Inr [Resolved [first_mention, second_mention]]"
    by code_simp
  have 8: "buffer_of [''2''] = ''2'' @ [newline]" by code_simp
  from coreference_blocks [where fs = coref_file and filename = "''d.coref''"
      and contents = ?c and lead = "[]" and segs = ?segs and trailing = "[''2'']"
      and s = two_mentions and md = ?md and sd = Map.empty and E = example_env
      and es = "[Resolved [first_mention, second_mention]]", OF 1 2 3 4 5 6 7] 8
  show ?thesis
    by (simp add: Entity_fromTest_def)
qed

subsection \<open>The loop of makeTokenSets\<close>

lemma addresses_of_Nil: "addresses_of flag n [] k = []"
  by (simp add: addresses_of_def)

lemma addresses_of_Cons:
  "addresses_of flag n (m # ms) k
     = (if mention_key flag m = k then [n] else []) @ addresses_of flag (Suc n) ms k"
proof -
  have "[n..<n + length (m # ms)] = n # [Suc n..<Suc n + length ms]"
    by (subst upt_rec) simp
  then show ?thesis by (simp add: addresses_of_def)
qed

lemma mention_key_allowed:
  "mention_key flag m \<in> set (allowed_tags flag)
     \<longleftrightarrow> mention_tag m \<in> {''org'', ''per'', ''loc'', ''locorg''}"
  by (auto simp: mention_key_def allowed_tags_def)

lemma token_sets_loop_result:
  "token_sets_loop g flag ms store res = Inr (store', res') \<Longrightarrow>
     store' = store @ map (\<lambda>m. mention_token_set g (mention_key flag m) m) ms
     \<and> (\<forall>k. res' k = map_option (\<lambda>l. l @ addresses_of flag (length store) ms k) (res k))"
proof (induction ms arbitrary: store res)
  case Nil
  then show ?case by (simp add: addresses_of_Nil option.map_ident)
next
  case (Cons m ms)
  let ?key = "mention_key flag m"
  from Cons.prems obtain l where l: "res ?key = Some l"
    and rec: "token_sets_loop g flag ms (store @ [mention_token_set g ?key m])
        (res(?key \<mapsto> l @ [length store])) = Inr (store', res')"
    by (auto simp: Let_def split: if_splits option.splits)
  from Cons.IH [OF rec]
  have s: "store' = (store @ [mention_token_set g ?key m])
        @ map (\<lambda>m. mention_token_set g (mention_key flag m) m) ms"
    and r: "\<And>k. res' k = map_option (\<lambda>l. l @ addresses_of flag (Suc (length store)) ms k)
        ((res(?key \<mapsto> l @ [length store])) k)"
    by simp_all
  show ?case
  proof (intro conjI allI)
    from s show "store' = store @ map (\<lambda>m. mention_token_set g (mention_key flag m) m) (m # ms)"
      by simp
    fix k
    show "res' k = map_option (\<lambda>l. l @ addresses_of flag (length store) (m # ms) k) (res k)"
    proof (cases "k = ?key")
      case True
      with r [of k] l show ?thesis by (simp add: addresses_of_Cons)
    next
      case False
      with r [of k] show ?thesis by (simp add: addresses_of_Cons)
    qed
  qed
qed

lemma token_sets_loop_asserts:
  "\<exists>m\<in>set ms. mention_key flag m \<notin> set (allowed_tags flag) \<Longrightarrow>
     set (allowed_tags flag) \<subseteq> dom res \<Longrightarrow>
     token_sets_loop g flag ms store res = Inl AssertionError"
proof (induction ms arbitrary: store res)
  case Nil
  then show ?case by simp
next
  case (Cons m ms)
  show ?case
  proof (cases "mention_key flag m \<in> set (allowed_tags flag)")
    case False
    then show ?thesis by (simp add: Let_def)
  next
    case True
    with Cons.prems(2) obtain l where l: "res (mention_key flag m) = Some l" by blast
    from True Cons.prems(1)
    have later: "\<exists>m\<in>set ms. mention_key flag m \<notin> set (allowed_tags flag)" by auto
    from Cons.prems(2)
    have "set (allowed_tags flag) \<subseteq> dom (res(mention_key flag m \<mapsto> l @ [length store]))"
      by auto
    from Cons.IH [OF later this, of "store @ [mention_token_set g (mention_key flag m) m]"] True l
    show ?thesis by (simp add: Let_def fun_upd_def)
  qed
qed

lemma token_sets_loop_completes:
  "\<forall>m\<in>set ms. mention_key flag m \<in> set (allowed_tags flag) \<Longrightarrow>
     set (allowed_tags flag) \<subseteq> dom res \<Longrightarrow>
     \<exists>store' res'. token_sets_loop g flag ms store res = Inr (store', res')"
proof (induction ms arbitrary: store res)
  case Nil
  then show ?case by simp
next
  case (Cons m ms)
  from Cons.prems have k: "mention_key flag m \<in> set (allowed_tags flag)" by simp
  with Cons.prems(2) obtain l where l: "res (mention_key flag m) = Some l" by blast
  from Cons.prems(1)
  have later: "\<forall>m\<in>set ms. mention_key flag m \<in> set (allowed_tags flag)" by simp
  from Cons.prems(2)
  have "set (allowed_tags flag) \<subseteq> dom (res(mention_key flag m \<mapsto> l @ [length store]))"
    by auto
  from Cons.IH [OF later this, of "store @ [mention_token_set g (mention_key flag m) m]"] k l
  show ?case by (simp add: Let_def fun_upd_def)
qed

lemma initial_res:
  "map_of (map (\<lambda>x. (x, [])) (allowed_tags flag)) k
     = (if k \<in> set (allowed_tags flag) then Some [] else None)"
  by (induction "allowed_tags flag") (auto simp: map_of_map_restrict restrict_map_def)

subsection \<open>The nesting pass\<close>



lemma enclosed_tokens:
  "set_tokens a = set_tokens a' \<Longrightarrow> set_tokens b = set_tokens b' \<Longrightarrow>
     enclosed registry a b = enclosed registry a' b'"
  by (simp add: enclosed_def token_run_def)

lemma findParents_fold:
  assumes "self < length st0"
  shows "fold (\<lambda>other st.
             if other \<noteq> self \<and> enclosed registry (st ! self) (st ! other)
             then st[self := (st ! self)\<lparr>set_parent := Some other\<rparr>] else st)
          all_sets (st0[self := (st0 ! self)\<lparr>set_parent := p\<rparr>])
    = st0[self := (st0 ! self)\<lparr>set_parent :=
        (case filter (\<lambda>other. other \<noteq> self \<and> enclosed registry (st0 ! self) (st0 ! other))
                all_sets of
           [] \<Rightarrow> p
         | c # cs \<Rightarrow> Some (last (c # cs)))\<rparr>]"
proof (induction all_sets arbitrary: p)
  case Nil
  show ?case by simp
next
  case (Cons other all_sets)
  let ?st = "st0[self := (st0 ! self)\<lparr>set_parent := p\<rparr>]"
  let ?cand = "\<lambda>other. other \<noteq> self \<and> enclosed registry (st0 ! self) (st0 ! other)"
  have self: "?st ! self = (st0 ! self)\<lparr>set_parent := p\<rparr>"
    using assms by simp
  show ?case
  proof (cases "other = self")
    case True
    with Cons.IH [of p] show ?thesis by simp
  next
    case False
    then have other: "?st ! other = st0 ! other" by simp
    have enc: "enclosed registry (?st ! self) (?st ! other)
      = enclosed registry (st0 ! self) (st0 ! other)"
      unfolding self other by (rule enclosed_tokens) simp_all
    show ?thesis
    proof (cases "enclosed registry (st0 ! self) (st0 ! other)")
      case True
      have upd: "?st[self := (?st ! self)\<lparr>set_parent := Some other\<rparr>]
        = st0[self := (st0 ! self)\<lparr>set_parent := Some other\<rparr>]"
        unfolding self by simp
      from True False enc Cons.IH [of "Some other"] upd show ?thesis
        by (simp split: list.split)
    next
      case no: False
      with False enc Cons.IH [of p] show ?thesis by simp
    qed
  qed
qed

lemma findParents_result:
  assumes "self < length store"
  shows "findParents registry self all_sets store
    = store[self := (store ! self)\<lparr>set_parent := recorded_parent registry store all_sets self\<rparr>]"
proof -
  have "store = store[self := (store ! self)\<lparr>set_parent := set_parent (store ! self)\<rparr>]"
    by simp
  then have "findParents registry self all_sets store
    = fold (\<lambda>other st.
             if other \<noteq> self \<and> enclosed registry (st ! self) (st ! other)
             then st[self := (st ! self)\<lparr>set_parent := Some other\<rparr>] else st)
          all_sets (store[self := (store ! self)\<lparr>set_parent := set_parent (store ! self)\<rparr>])"
    unfolding findParents_def by simp
  also note findParents_fold [OF assms]
  finally show ?thesis by (simp add: recorded_parent_def)
qed


lemma recorded_parent_tokens:
  assumes "self < length st" and "\<forall>other\<in>set all_sets. other < length st"
    and "length st' = length st"
    and "\<forall>a<length st. set_tokens (st' ! a) = set_tokens (st ! a)"
    and "set_parent (st' ! self) = set_parent (st ! self)
      \<or> set_parent (st' ! self) = recorded_parent registry st all_sets self"
  shows "recorded_parent registry st' all_sets self = recorded_parent registry st all_sets self"
proof -
  have "filter (\<lambda>other. other \<noteq> self \<and> enclosed registry (st' ! self) (st' ! other)) all_sets
    = filter (\<lambda>other. other \<noteq> self \<and> enclosed registry (st ! self) (st ! other)) all_sets"
  proof (rule filter_cong [OF refl])
    fix other
    assume "other \<in> set all_sets"
    with assms(2) have "other < length st" by simp
    with assms(1,4)
    have "enclosed registry (st' ! self) (st' ! other) = enclosed registry (st ! self) (st ! other)"
      by (intro enclosed_tokens) simp_all
    then show "(other \<noteq> self \<and> enclosed registry (st' ! self) (st' ! other))
      = (other \<noteq> self \<and> enclosed registry (st ! self) (st ! other))"
      by simp
  qed
  with assms(5) show ?thesis
    by (auto simp: recorded_parent_def split: list.splits)
qed

lemma with_parents_length: "length (with_parents registry store all_sets visited) = length store"
  by (simp add: with_parents_def)

lemma with_parents_nth:
  "a < length store \<Longrightarrow>
     with_parents registry store all_sets visited ! a
       = (if a \<in> set visited
          then (store ! a)\<lparr>set_parent := recorded_parent registry store all_sets a\<rparr>
          else store ! a)"
  by (simp add: with_parents_def)

lemma nesting_fold:
  assumes "\<forall>other\<in>set all_sets. other < length store"
  shows "\<forall>a\<in>set visited. a < length store \<Longrightarrow>
    fold (\<lambda>org st. findParents registry org all_sets st) visited store
      = with_parents registry store all_sets visited"
proof (induction visited rule: rev_induct)
  case Nil
  show ?case by (simp add: with_parents_def map_nth)
next
  case (snoc x visited)
  let ?W = "with_parents registry store all_sets visited"
  from snoc.prems have x: "x < length store" and v: "\<forall>a\<in>set visited. a < length store"
    by simp_all
  from snoc.IH [OF v]
  have "fold (\<lambda>org st. findParents registry org all_sets st) (visited @ [x]) store
    = findParents registry x all_sets ?W"
    by simp
  also have "\<dots> = ?W[x := (?W ! x)\<lparr>set_parent := recorded_parent registry ?W all_sets x\<rparr>]"
    by (rule findParents_result) (simp add: with_parents_length x)
  also have "recorded_parent registry ?W all_sets x = recorded_parent registry store all_sets x"
  proof (rule recorded_parent_tokens [OF x assms with_parents_length])
    show "\<forall>a<length store. set_tokens (?W ! a) = set_tokens (store ! a)"
      by (simp add: with_parents_nth)
    show "set_parent (?W ! x) = set_parent (store ! x)
      \<or> set_parent (?W ! x) = recorded_parent registry store all_sets x"
      using x by (simp add: with_parents_nth)
  qed
  also have "?W[x := (?W ! x)\<lparr>set_parent := recorded_parent registry store all_sets x\<rparr>]
    = with_parents registry store all_sets (visited @ [x])"
  proof (rule nth_equalityI)
    show "length (?W[x := (?W ! x)\<lparr>set_parent := recorded_parent registry store all_sets x\<rparr>])
      = length (with_parents registry store all_sets (visited @ [x]))"
      by (simp add: with_parents_length)
    fix a
    assume "a < length (?W[x := (?W ! x)\<lparr>set_parent := recorded_parent registry store all_sets x\<rparr>])"
    then have a: "a < length store" by (simp add: with_parents_length)
    show "?W[x := (?W ! x)\<lparr>set_parent := recorded_parent registry store all_sets x\<rparr>] ! a
      = with_parents registry store all_sets (visited @ [x]) ! a"
    proof (cases "a = x")
      case True
      with x show ?thesis by (simp add: with_parents_nth with_parents_length)
    next
      case False
      with a show ?thesis by (simp add: with_parents_nth)
    qed
  qed
  finally show ?case .
qed

lemma nesting_pass_result:
  assumes "\<forall>a\<in>set all_orgs. a < length store"
  shows "nesting_pass registry all_orgs store = with_parents registry store all_orgs all_orgs"
  unfolding nesting_pass_def by (rule nesting_fold [OF assms assms])

subsection \<open>The result of makeTokenSets\<close>



lemma addresses_of_set:
  "set (addresses_of flag n ms k)
     = {a. n \<le> a \<and> a < n + length ms \<and> mention_key flag (ms ! (a - n)) = k}"
proof (induction ms arbitrary: n)
  case Nil
  show ?case by (simp add: addresses_of_Nil)
next
  case (Cons m ms)
  have "{a. n \<le> a \<and> a < n + length (m # ms) \<and> mention_key flag ((m # ms) ! (a - n)) = k}
    = (if mention_key flag m = k then {n} else {})
      \<union> {a. Suc n \<le> a \<and> a < Suc n + length ms \<and> mention_key flag (ms ! (a - Suc n)) = k}"
    (is "?L = ?R")
  proof (intro set_eqI iffI)
    fix a
    assume "a \<in> ?L"
    then have a: "n \<le> a" "a < n + length (m # ms)"
      "mention_key flag ((m # ms) ! (a - n)) = k" by simp_all
    show "a \<in> ?R"
    proof (cases "a = n")
      case True
      with a show ?thesis by simp
    next
      case False
      with a(1) obtain d where d: "a - n = Suc d" "a - Suc n = d"
        by (metis Suc_diff_Suc le_neq_implies_less)
      with a False show ?thesis by simp
    qed
  next
    fix a
    assume "a \<in> ?R"
    then consider "a = n" "mention_key flag m = k"
      | "Suc n \<le> a" "a < Suc n + length ms" "mention_key flag (ms ! (a - Suc n)) = k"
      by (auto split: if_splits)
    then show "a \<in> ?L"
    proof cases
      case 1
      then show ?thesis by simp
    next
      case 2
      from 2(1) have "a - n = Suc (a - Suc n)" by simp
      with 2 show ?thesis by simp
    qed
  qed
  with Cons.IH [of "Suc n"] show ?case by (simp add: addresses_of_Cons)
qed

lemma addresses_of_valid:
  "a \<in> set (addresses_of flag 0 ms k) \<longleftrightarrow> a < length ms \<and> mention_key flag (ms ! a) = k"
  by (simp add: addresses_of_set)

lemma marks_keep_fields:
  "set_tokens (fold (\<lambda>tok ts'. setMark ts' tok (g (set_tag ts') x)) toks ts) = set_tokens ts
   \<and> set_tag (fold (\<lambda>tok ts'. setMark ts' tok (g (set_tag ts') x)) toks ts) = set_tag ts
   \<and> set_parent (fold (\<lambda>tok ts'. setMark ts' tok (g (set_tag ts') x)) toks ts) = set_parent ts"
  by (induction toks arbitrary: ts) (simp_all add: setMark_def)

lemma span_marks_keep_fields:
  "set_tokens (fold (\<lambda>sp ts. fold (\<lambda>tok ts'. setMark ts' tok (g (set_tag ts') (span_tag sp)))
                                    (span_tokens sp) ts) sps ts) = set_tokens ts
   \<and> set_tag (fold (\<lambda>sp ts. fold (\<lambda>tok ts'. setMark ts' tok (g (set_tag ts') (span_tag sp)))
                                    (span_tokens sp) ts) sps ts) = set_tag ts
   \<and> set_parent (fold (\<lambda>sp ts. fold (\<lambda>tok ts'. setMark ts' tok (g (set_tag ts') (span_tag sp)))
                                    (span_tokens sp) ts) sps ts) = set_parent ts"
  by (induction sps arbitrary: ts) (simp_all add: marks_keep_fields)

lemma mention_token_set_fields:
  "set_tokens (mention_token_set g key m) = concat (map span_tokens (mention_spans m))"
  "set_tag (mention_token_set g key m) = key"
  "set_parent (mention_token_set g key m) = None"
  by (simp_all add: mention_token_set_def span_marks_keep_fields TokenSet_init_def)

lemma makeTokenSets_result:
  assumes "mentions s = Some ms"
    and "\<forall>m\<in>set ms. mention_tag m \<in> {''org'', ''per'', ''loc'', ''locorg''}"
  shows "makeTokenSets g s flag
    = Inr (with_parents (registry_of s)
             (map (\<lambda>m. mention_token_set g (mention_key flag m) m) ms)
             (all_orgs_of flag ms) (all_orgs_of flag ms),
           \<lambda>k. if k \<in> set (allowed_tags flag) then Some (addresses_of flag 0 ms k) else None)"
proof -
  let ?init = "map_of (map (\<lambda>x. (x, [])) (allowed_tags flag))"
  let ?built = "map (\<lambda>m. mention_token_set g (mention_key flag m) m) ms"
  let ?res = "\<lambda>k. if k \<in> set (allowed_tags flag) then Some (addresses_of flag 0 ms k) else None"
  from assms(2) have ok: "\<forall>m\<in>set ms. mention_key flag m \<in> set (allowed_tags flag)"
    by (simp add: mention_key_allowed)
  have dom0: "set (allowed_tags flag) \<subseteq> dom ?init"
    by (auto simp: initial_res)
  from token_sets_loop_completes [OF ok dom0] obtain store' res'
    where loop: "token_sets_loop g flag ms [] ?init = Inr (store', res')"
    by blast
  from token_sets_loop_result [OF loop]
  have store': "store' = ?built"
    and res': "\<And>k. res' k = map_option (\<lambda>l. l @ addresses_of flag 0 ms k) (?init k)"
    by simp_all
  have res: "res' = ?res"
  proof
    fix k
    from res' [of k] show "res' k = ?res k" by (simp add: initial_res)
  qed
  have valid: "\<forall>a\<in>set (all_orgs_of flag ms). a < length ?built"
    by (auto simp: all_orgs_of_def addresses_of_valid)
  have pass: "nesting_pass (registry_of s) (all_orgs_of flag ms) ?built
    = with_parents (registry_of s) ?built (all_orgs_of flag ms) (all_orgs_of flag ms)"
    by (rule nesting_pass_result [OF valid])
  have org: "''org'' \<in> set (allowed_tags flag)" by (simp add: allowed_tags_def)
  have locorg: "flag \<Longrightarrow> ''locorg'' \<in> set (allowed_tags flag)" by (simp add: allowed_tags_def)
  show ?thesis
  proof (cases flag)
    case True
    with assms(1) loop store' res org locorg pass show ?thesis
      by (simp add: makeTokenSets_def all_orgs_of_def)
  next
    case False
    with assms(1) loop store' res org pass show ?thesis
      by (simp add: makeTokenSets_def all_orgs_of_def)
  qed
qed

lemma makeTokenSets_asserts:
  assumes "mentions s = Some ms"
    and "\<exists>m\<in>set ms. mention_tag m \<notin> {''org'', ''per'', ''loc'', ''locorg''}"
  shows "makeTokenSets g s flag = Inl AssertionError"
proof -
  from assms(2) have "\<exists>m\<in>set ms. mention_key flag m \<notin> set (allowed_tags flag)"
    by (simp add: mention_key_allowed)
  moreover have "set (allowed_tags flag) \<subseteq> dom (map_of (map (\<lambda>x. (x, [])) (allowed_tags flag)))"
    by (auto simp: initial_res)
  ultimately have "token_sets_loop g flag ms []
      (map_of (map (\<lambda>x. (x, [])) (allowed_tags flag))) = Inl AssertionError"
    by (rule token_sets_loop_asserts)
  with assms(1) show ?thesis by (simp add: makeTokenSets_def)
qed

lemma with_parents_untouched:
  assumes "a < length store" and "a \<notin> set all_sets"
  shows "with_parents registry store all_sets all_sets ! a = store ! a"
  using assms by (simp add: with_parents_nth)

lemma with_parents_fields:
  assumes "a < length store"
  shows "set_tokens (with_parents registry store all_sets visited ! a) = set_tokens (store ! a)"
    and "set_tag (with_parents registry store all_sets visited ! a) = set_tag (store ! a)"
    and "set_marks (with_parents registry store all_sets visited ! a) = set_marks (store ! a)"
  using assms by (simp_all add: with_parents_nth)


text \<open>
  Claim C8. With assertions enabled, \<^verbatim>\<open>makeTokenSets\<close> raises \<^verbatim>\<open>AssertionError\<close> as soon as
  one mention bears a tag other than \<open>org\<close>, \<open>per\<close>, \<open>loc\<close> and \<open>locorg\<close>, whatever the
  flag is: such a mention is neither skipped nor grouped. When every mention bears one
  of the four tags, the operation returns a result.
\<close>

theorem unknown_tag_fails_assertion:
  assumes "mentions s = Some ms"
  shows "((\<exists>m\<in>set ms. mention_tag m \<notin> {''org'', ''per'', ''loc'', ''locorg''})
        \<longrightarrow> makeTokenSets getMark s is_locorg_allowed = Inl AssertionError)
    \<and> ((\<forall>m\<in>set ms. mention_tag m \<in> {''org'', ''per'', ''loc'', ''locorg''})
        \<longrightarrow> (\<exists>store res. makeTokenSets getMark s is_locorg_allowed = Inr (store, res)))"
proof (intro conjI impI)
  assume "\<exists>m\<in>set ms. mention_tag m \<notin> {''org'', ''per'', ''loc'', ''locorg''}"
  with assms show "makeTokenSets getMark s is_locorg_allowed = Inl AssertionError"
    by (rule makeTokenSets_asserts)
next
  assume "\<forall>m\<in>set ms. mention_tag m \<in> {''org'', ''per'', ''loc'', ''locorg''}"
  from makeTokenSets_result [OF assms this]
  show "\<exists>store res. makeTokenSets getMark s is_locorg_allowed = Inr (store, res)"
    by blast
qed

theorem unknown_tag_fails_assertion_witness:
  "makeTokenSets pair_mark other_document True = Inl AssertionError
   \<and> makeTokenSets pair_mark other_document False = Inl AssertionError
   \<and> \<not> isl (makeTokenSets pair_mark locorg_document True)"
proof -
  let ?ms = "[\<lparr>mention_id = 1, mention_tag = ''org'', mention_spans = [bank_span]\<rparr>,
             \<lparr>mention_id = 2, mention_tag = ''other'', mention_spans = [bank_span]\<rparr>]"
  have m: "mentions other_document = Some ?ms"
    by (simp add: other_document_def new_object_def)
  have bad: "\<exists>m\<in>set ?ms. mention_tag m \<notin> {''org'', ''per'', ''loc'', ''locorg''}"
    by simp
  let ?ls = "[\<lparr>mention_id = 5, mention_tag = ''locorg'', mention_spans = [bank_span]\<rparr>]"
  have l: "mentions locorg_document = Some ?ls"
    by (simp add: locorg_document_def new_object_def)
  have good: "\<forall>m\<in>set ?ls. mention_tag m \<in> {''org'', ''per'', ''loc'', ''locorg''}"
    by simp
  from unknown_tag_fails_assertion [OF m, of pair_mark True, THEN conjunct1, THEN mp, OF bad]
    unknown_tag_fails_assertion [OF m, of pair_mark False, THEN conjunct1, THEN mp, OF bad]
    unknown_tag_fails_assertion [OF l, of pair_mark True, THEN conjunct2, THEN mp, OF good]
  show ?thesis by auto
qed


text \<open>
  Claim C4. When \<^verbatim>\<open>makeTokenSets(False)\<close> returns, the keys of the mapping are \<open>org\<close>,
  \<open>per\<close> and \<open>loc\<close>, so there is no collection for \<open>locorg\<close>. The token set of the
  \<open>i\<close>-th mention is stored at address \<open>i\<close>; for a mention tagged \<open>locorg\<close> that
  address is listed under \<open>loc\<close> and under no other key, and the token set is tagged
  \<open>loc\<close> and holds the tokens of the spans of the mention.
\<close>

theorem locorg_folds_into_loc:
  assumes "mentions s = Some ms"
    and "makeTokenSets getMark s False = Inr (store, res)"
  shows "dom res = {''org'', ''per'', ''loc''}
    \<and> res ''locorg'' = None
    \<and> length store = length ms
    \<and> (\<forall>i<length ms. mention_tag (ms ! i) = ''locorg'' \<longrightarrow>
          (\<exists>l. res ''loc'' = Some l \<and> i \<in> set l)
          \<and> (\<forall>k l. res k = Some l \<and> i \<in> set l \<longrightarrow> k = ''loc'')
          \<and> set_tag (store ! i) = ''loc''
          \<and> set_tokens (store ! i) = concat (map span_tokens (mention_spans (ms ! i))))"
proof -
  have ok: "\<forall>m\<in>set ms. mention_tag m \<in> {''org'', ''per'', ''loc'', ''locorg''}"
  proof (rule ccontr)
    assume "\<not> ?thesis"
    then have "\<exists>m\<in>set ms. mention_tag m \<notin> {''org'', ''per'', ''loc'', ''locorg''}" by simp
    from makeTokenSets_asserts [OF assms(1) this, of getMark False] assms(2)
    show False by simp
  qed
  let ?built = "map (\<lambda>m. mention_token_set getMark (mention_key False m) m) ms"
  from makeTokenSets_result [OF assms(1) ok, of getMark False] assms(2)
  have store: "store = with_parents (registry_of s) ?built (all_orgs_of False ms) (all_orgs_of False ms)"
    and res: "res = (\<lambda>k. if k \<in> set (allowed_tags False)
                          then Some (addresses_of False 0 ms k) else None)"
    by simp_all
  show ?thesis
  proof (intro conjI allI impI)
    show "dom res = {''org'', ''per'', ''loc''}"
      unfolding res by (auto simp: allowed_tags_def dom_def)
    show "res ''locorg'' = None"
      unfolding res by (simp add: allowed_tags_def)
    show "length store = length ms"
      unfolding store by (simp add: with_parents_length)
  next
    fix i
    assume i: "i < length ms" and tag: "mention_tag (ms ! i) = ''locorg''"
    then have key: "mention_key False (ms ! i) = ''loc''"
      by (simp add: mention_key_def)
    then have mem: "i \<in> set (addresses_of False 0 ms ''loc'')"
      using i by (simp add: addresses_of_valid)
    then show "\<exists>l. res ''loc'' = Some l \<and> i \<in> set l"
      unfolding res by (simp add: allowed_tags_def)
    show "set_tag (store ! i) = ''loc''"
      unfolding store using i key
      by (simp add: with_parents_fields mention_token_set_fields)
    show "set_tokens (store ! i) = concat (map span_tokens (mention_spans (ms ! i)))"
      unfolding store using i
      by (simp add: with_parents_fields mention_token_set_fields)
    fix k l
    assume "res k = Some l \<and> i \<in> set l"
    then have "i \<in> set (addresses_of False 0 ms k)"
      unfolding res by (auto split: if_splits)
    with key show "k = ''loc''" by (simp add: addresses_of_valid)
  qed
qed


theorem locorg_folds_into_loc_witness:
  "\<not> isl (makeTokenSets pair_mark locorg_document False)
   \<and> snd (projr (makeTokenSets pair_mark locorg_document False)) ''locorg'' = None
   \<and> length (fst (projr (makeTokenSets pair_mark locorg_document False))) = 1
   \<and> set_tag (fst (projr (makeTokenSets pair_mark locorg_document False)) ! 0) = ''loc''
   \<and> set_tokens (fst (projr (makeTokenSets pair_mark locorg_document False)) ! 0) = [0]"
proof -
  let ?R = "projr (makeTokenSets pair_mark locorg_document False)"
  let ?ls = "[\<lparr>mention_id = 5, mention_tag = ''locorg'', mention_spans = [bank_span]\<rparr>]"
  have l: "mentions locorg_document = Some ?ls"
    by (simp add: locorg_document_def new_object_def)
  have r: "\<not> isl (makeTokenSets pair_mark locorg_document False)" by code_simp
  then have eq: "makeTokenSets pair_mark locorg_document False = Inr (fst ?R, snd ?R)"
    by simp
  note T = locorg_folds_into_loc [OF l eq]
  from T have 1: "snd ?R ''locorg'' = None" and 2: "length (fst ?R) = length ?ls"
    by simp_all
  from T have "\<forall>i<length ?ls. mention_tag (?ls ! i) = ''locorg'' \<longrightarrow>
      set_tag (fst ?R ! i) = ''loc''
      \<and> set_tokens (fst ?R ! i) = concat (map span_tokens (mention_spans (?ls ! i)))"
    by blast
  from this [rule_format, of 0]
  have 3: "set_tag (fst ?R ! 0) = ''loc''" and 4: "set_tokens (fst ?R ! 0) = [0]"
    by (simp_all add: bank_span_def)
  from r 1 2 3 4 show ?thesis by simp
qed

subsection \<open>Nesting of organizations\<close>

lemma all_orgs_of_set:
  "a \<in> set (all_orgs_of flag ms) \<longleftrightarrow> a < length ms \<and> in_nesting_pass flag (ms ! a)"
  by (auto simp: all_orgs_of_def addresses_of_valid in_nesting_pass_def)

lemma token_run_set:
  "set (token_run registry ts)
     = (if set_tokens ts = [] then {}
        else {Min (position registry ` set (set_tokens ts))
              .. Max (position registry ` set (set_tokens ts))})"
proof (cases "set_tokens ts")
  case Nil
  then show ?thesis by (simp add: token_run_def)
next
  case (Cons t toks)
  have "fold min (map (position registry) toks) (position registry t)
      = Min (set (position registry t # map (position registry) toks))"
    by (rule Min.set_eq_fold [symmetric])
  moreover have "fold max (map (position registry) toks) (position registry t)
      = Max (set (position registry t # map (position registry) toks))"
    by (rule Max.set_eq_fold [symmetric])
  ultimately show ?thesis using Cons
    by (simp add: token_run_def atLeastLessThanSuc_atLeastAtMost del: upt_Suc)
qed

lemma position_in_run:
  assumes "t \<in> set (set_tokens ts)"
  shows "position registry t \<in> set (token_run registry ts)"
proof -
  from assms have ne: "set_tokens ts \<noteq> []" by auto
  from assms have "position registry t \<in> position registry ` set (set_tokens ts)" by simp
  then have "Min (position registry ` set (set_tokens ts)) \<le> position registry t"
    and "position registry t \<le> Max (position registry ` set (set_tokens ts))"
    by simp_all
  with ne show ?thesis by (simp add: token_run_set)
qed

lemma run_subset_enclosed:
  assumes "set (token_run registry a) \<subseteq> set (token_run registry b)"
  shows "enclosed registry a b"
  unfolding enclosed_def list_all_iff
proof
  fix t
  assume "t \<in> set (set_tokens a)"
  then have "position registry t \<in> set (token_run registry a)" by (rule position_in_run)
  with assms show "position registry t \<in> set (token_run registry b)" by auto
qed

lemma disjoint_not_enclosed:
  assumes "set (token_run registry a) \<inter> set (token_run registry b) = {}"
    and "set_tokens a \<noteq> []"
  shows "\<not> enclosed registry a b"
proof
  assume e: "enclosed registry a b"
  from assms(2) obtain t where t: "t \<in> set (set_tokens a)" by (cases "set_tokens a") auto
  then have "position registry t \<in> set (token_run registry a)" by (rule position_in_run)
  moreover from e t have "position registry t \<in> set (token_run registry b)"
    by (simp add: enclosed_def list_all_iff)
  ultimately show False using assms(1) by auto
qed

lemma recorded_parent_only:
  assumes "b \<in> set all_sets" and "b \<noteq> self"
    and "enclosed registry (store ! self) (store ! b)"
    and "\<forall>c\<in>set all_sets. c \<noteq> self \<and> c \<noteq> b \<longrightarrow> \<not> enclosed registry (store ! self) (store ! c)"
  shows "recorded_parent registry store all_sets self = Some b"
proof -
  let ?cs = "filter (\<lambda>other. other \<noteq> self \<and> enclosed registry (store ! self) (store ! other))
    all_sets"
  from assms(1,2,3) have "b \<in> set ?cs" by simp
  then have ne: "?cs \<noteq> []" by (metis empty_iff empty_set)
  then have "last ?cs \<in> set ?cs" by (rule last_in_set)
  with assms(4) have "last ?cs = b" by auto
  with ne show ?thesis
    by (cases ?cs) (simp_all add: recorded_parent_def)
qed

lemma recorded_parent_none:
  assumes "\<forall>c\<in>set all_sets. c \<noteq> self \<longrightarrow> \<not> enclosed registry (store ! self) (store ! c)"
  shows "recorded_parent registry store all_sets self = set_parent (store ! self)"
proof -
  from assms
  have "filter (\<lambda>other. other \<noteq> self \<and> enclosed registry (store ! self) (store ! other))
    all_sets = []"
    by (auto simp: filter_empty_conv)
  then show ?thesis by (simp add: recorded_parent_def)
qed


lemma token_run_tokens:
  "set_tokens a = set_tokens a' \<Longrightarrow> token_run registry a = token_run registry a'"
  by (simp add: token_run_def)

subsection \<open>The token list\<close>















subsection \<open>Parents of nested organizations\<close>

lemma recorded_parent_some:
  assumes "set_parent (store ! self) = None"
    and "recorded_parent registry store all_sets self = Some c"
  shows "c \<in> set all_sets \<and> c \<noteq> self \<and> enclosed registry (store ! self) (store ! c)"
proof -
  let ?cs = "filter (\<lambda>other. other \<noteq> self \<and> enclosed registry (store ! self) (store ! other))
    all_sets"
  from assms have ne: "?cs \<noteq> []" and c: "c = last ?cs"
    by (auto simp: recorded_parent_def split: list.splits)
  from ne have "last ?cs \<in> set ?cs" by (rule last_in_set)
  with c show ?thesis by simp
qed

lemma recorded_parent_found:
  assumes "b \<in> set all_sets" and "b \<noteq> self"
    and "enclosed registry (store ! self) (store ! b)"
  shows "recorded_parent registry store all_sets self \<noteq> None"
proof -
  let ?cs = "filter (\<lambda>other. other \<noteq> self \<and> enclosed registry (store ! self) (store ! other))
    all_sets"
  from assms have "b \<in> set ?cs" by simp
  then have "?cs \<noteq> []" by (metis empty_iff empty_set)
  then show ?thesis by (cases ?cs) (simp_all add: recorded_parent_def)
qed


text \<open>
  Claim C5, as amended. When \<^verbatim>\<open>makeTokenSets\<close> returns, the token set of a mention that is
  not grouped under \<open>org\<close> (or under \<open>locorg\<close> with the flag on) is the token set as it was
  built, with no parent: the nesting pass does not run over person and location token
  sets. For token sets \<open>A\<close> and \<open>B\<close> of the pass, when the token run of \<open>A\<close> is a strict
  subset of the token run of \<open>B\<close> and no third token set of the pass encloses \<open>A\<close>, the
  parent of \<open>A\<close> is \<open>B\<close>. When one or more token sets of the pass enclose \<open>A\<close>, the
  parent of \<open>A\<close> is one of them; when none does, the parent of \<open>A\<close> stays unset. Two
  token sets of the pass with disjoint non-empty runs are never each other's parent,
  and both keep their parent unset when they are the only ones of the pass.
\<close>

theorem nesting_pass_over_organizations:
  assumes "mentions s = Some ms"
    and "makeTokenSets getMark s is_locorg_allowed = Inr (store, res)"
  shows "(\<forall>i<length ms. \<not> in_nesting_pass is_locorg_allowed (ms ! i) \<longrightarrow>
            store ! i = mention_token_set getMark (mention_key is_locorg_allowed (ms ! i)) (ms ! i)
            \<and> set_parent (store ! i) = None)
    \<and> (\<forall>a b. a < length ms \<and> b < length ms
          \<and> in_nesting_pass is_locorg_allowed (ms ! a)
          \<and> in_nesting_pass is_locorg_allowed (ms ! b)
          \<and> set (token_run (registry_of s) (store ! a))
              \<subset> set (token_run (registry_of s) (store ! b))
          \<and> (\<forall>c<length ms. c \<noteq> a \<and> c \<noteq> b \<and> in_nesting_pass is_locorg_allowed (ms ! c)
                \<longrightarrow> \<not> enclosed (registry_of s) (store ! a) (store ! c))
        \<longrightarrow> set_parent (store ! a) = Some b)
    \<and> (\<forall>a. a < length ms \<and> in_nesting_pass is_locorg_allowed (ms ! a)
          \<and> (\<exists>c<length ms. c \<noteq> a \<and> in_nesting_pass is_locorg_allowed (ms ! c)
                \<and> enclosed (registry_of s) (store ! a) (store ! c))
        \<longrightarrow> (\<exists>c<length ms. c \<noteq> a \<and> in_nesting_pass is_locorg_allowed (ms ! c)
                \<and> enclosed (registry_of s) (store ! a) (store ! c)
                \<and> set_parent (store ! a) = Some c))
    \<and> (\<forall>a. a < length ms \<and> in_nesting_pass is_locorg_allowed (ms ! a)
          \<and> (\<forall>c<length ms. c \<noteq> a \<and> in_nesting_pass is_locorg_allowed (ms ! c)
                \<longrightarrow> \<not> enclosed (registry_of s) (store ! a) (store ! c))
        \<longrightarrow> set_parent (store ! a) = None)
    \<and> (\<forall>a b. a < length ms \<and> b < length ms
          \<and> in_nesting_pass is_locorg_allowed (ms ! a)
          \<and> in_nesting_pass is_locorg_allowed (ms ! b)
          \<and> set (token_run (registry_of s) (store ! a))
              \<inter> set (token_run (registry_of s) (store ! b)) = {}
          \<and> set_tokens (store ! a) \<noteq> [] \<and> set_tokens (store ! b) \<noteq> []
        \<longrightarrow> set_parent (store ! a) \<noteq> Some b \<and> set_parent (store ! b) \<noteq> Some a)
    \<and> (\<forall>a b. a < length ms \<and> b < length ms
          \<and> (\<forall>c<length ms. in_nesting_pass is_locorg_allowed (ms ! c) \<longrightarrow> c = a \<or> c = b)
          \<and> in_nesting_pass is_locorg_allowed (ms ! a)
          \<and> in_nesting_pass is_locorg_allowed (ms ! b)
          \<and> set (token_run (registry_of s) (store ! a))
              \<inter> set (token_run (registry_of s) (store ! b)) = {}
          \<and> set_tokens (store ! a) \<noteq> [] \<and> set_tokens (store ! b) \<noteq> []
        \<longrightarrow> set_parent (store ! a) = None \<and> set_parent (store ! b) = None)"
proof -
  let ?flag = is_locorg_allowed
  let ?reg = "registry_of s"
  let ?built = "map (\<lambda>m. mention_token_set getMark (mention_key ?flag m) m) ms"
  let ?orgs = "all_orgs_of ?flag ms"
  have ok: "\<forall>m\<in>set ms. mention_tag m \<in> {''org'', ''per'', ''loc'', ''locorg''}"
  proof (rule ccontr)
    assume "\<not> ?thesis"
    then have "\<exists>m\<in>set ms. mention_tag m \<notin> {''org'', ''per'', ''loc'', ''locorg''}" by simp
    from makeTokenSets_asserts [OF assms(1) this, of getMark ?flag] assms(2)
    show False by simp
  qed
  from makeTokenSets_result [OF assms(1) ok, of getMark ?flag] assms(2)
  have store: "store = with_parents ?reg ?built ?orgs ?orgs" by simp
  have toks: "set_tokens (store ! a) = set_tokens (?built ! a)" if "a < length ms" for a
    unfolding store using that by (simp add: with_parents_fields)
  have enc: "enclosed ?reg (store ! a) (store ! c) = enclosed ?reg (?built ! a) (?built ! c)"
    if "a < length ms" "c < length ms" for a c
    by (rule enclosed_tokens) (simp_all only: toks that)
  have parent: "set_parent (store ! a) = recorded_parent ?reg ?built ?orgs a"
    if "a < length ms" "in_nesting_pass ?flag (ms ! a)" for a
    unfolding store using that by (simp add: with_parents_nth all_orgs_of_set)
  have built_parent: "set_parent (?built ! a) = None" if "a < length ms" for a
    using that by (simp add: mention_token_set_fields)
  have none: "set_parent (store ! a) = None"
    if a: "a < length ms" "in_nesting_pass ?flag (ms ! a)"
      and c: "\<forall>c<length ms. c \<noteq> a \<and> in_nesting_pass ?flag (ms ! c)
          \<longrightarrow> \<not> enclosed ?reg (store ! a) (store ! c)" for a
  proof -
    have "\<forall>c\<in>set ?orgs. c \<noteq> a \<longrightarrow> \<not> enclosed ?reg (?built ! a) (?built ! c)"
      using c a(1) by (auto simp: all_orgs_of_set enc)
    from recorded_parent_none [OF this] parent [OF a] built_parent [OF a(1)]
    show ?thesis by simp
  qed
  have encloser: "c < length ms \<and> c \<noteq> a \<and> in_nesting_pass ?flag (ms ! c)
      \<and> enclosed ?reg (store ! a) (store ! c)"
    if a: "a < length ms" "in_nesting_pass ?flag (ms ! a)"
      and c: "set_parent (store ! a) = Some c" for a c
  proof -
    from c parent [OF a] have "recorded_parent ?reg ?built ?orgs a = Some c" by simp
    from recorded_parent_some [OF built_parent [OF a(1)] this]
    have m: "c \<in> set ?orgs" "c \<noteq> a" and e: "enclosed ?reg (?built ! a) (?built ! c)"
      by simp_all
    from m(1) have cl: "c < length ms" "in_nesting_pass ?flag (ms ! c)"
      by (simp_all add: all_orgs_of_set)
    with m(2) e a(1) show ?thesis by (simp add: enc)
  qed
  have apart: "set_parent (store ! a) \<noteq> Some b"
    if a: "a < length ms" "in_nesting_pass ?flag (ms ! a)"
      and dis: "set (token_run ?reg (store ! a)) \<inter> set (token_run ?reg (store ! b)) = {}"
      and ne: "set_tokens (store ! a) \<noteq> []" for a b
  proof
    assume "set_parent (store ! a) = Some b"
    from encloser [OF a this] have "enclosed ?reg (store ! a) (store ! b)" by simp
    with disjoint_not_enclosed [OF dis ne] show False by simp
  qed
  show ?thesis
  proof (intro conjI allI impI; (elim conjE)?)
    fix i
    assume i: "i < length ms" "\<not> in_nesting_pass ?flag (ms ! i)"
    then have "i \<notin> set ?orgs" by (simp add: all_orgs_of_set)
    with i(1) show "store ! i = mention_token_set getMark (mention_key ?flag (ms ! i)) (ms ! i)"
      unfolding store by (simp add: with_parents_nth)
    then show "set_parent (store ! i) = None"
      by (simp add: mention_token_set_fields)
  next
    fix a b
    assume a: "a < length ms" "in_nesting_pass ?flag (ms ! a)"
      and b: "b < length ms" "in_nesting_pass ?flag (ms ! b)"
      and sub: "set (token_run ?reg (store ! a)) \<subset> set (token_run ?reg (store ! b))"
      and only: "\<forall>c<length ms. c \<noteq> a \<and> c \<noteq> b \<and> in_nesting_pass ?flag (ms ! c)
          \<longrightarrow> \<not> enclosed ?reg (store ! a) (store ! c)"
    from sub have ne: "b \<noteq> a" by auto
    from sub have "enclosed ?reg (store ! a) (store ! b)"
      by (intro run_subset_enclosed) auto
    then have e: "enclosed ?reg (?built ! a) (?built ! b)"
      by (simp add: enc a(1) b(1))
    from b have mem: "b \<in> set ?orgs" by (simp add: all_orgs_of_set)
    have "\<forall>c\<in>set ?orgs. c \<noteq> a \<and> c \<noteq> b \<longrightarrow> \<not> enclosed ?reg (?built ! a) (?built ! c)"
      using only a(1) by (auto simp: all_orgs_of_set enc)
    from recorded_parent_only [OF mem ne e this] parent [OF a]
    show "set_parent (store ! a) = Some b" by simp
  next
    fix a
    assume a: "a < length ms" "in_nesting_pass ?flag (ms ! a)"
      and ex: "\<exists>c<length ms. c \<noteq> a \<and> in_nesting_pass ?flag (ms ! c)
          \<and> enclosed ?reg (store ! a) (store ! c)"
    then obtain b where b: "b < length ms" "b \<noteq> a" "in_nesting_pass ?flag (ms ! b)"
      "enclosed ?reg (store ! a) (store ! b)"
      by blast
    from b(1,3) have mem: "b \<in> set ?orgs" by (simp add: all_orgs_of_set)
    from b(4) have e: "enclosed ?reg (?built ! a) (?built ! b)"
      by (simp add: enc a(1) b(1))
    from recorded_parent_found [OF mem b(2) e] parent [OF a]
    obtain c where c: "set_parent (store ! a) = Some c" by auto
    from encloser [OF a c] c
    show "\<exists>c<length ms. c \<noteq> a \<and> in_nesting_pass ?flag (ms ! c)
        \<and> enclosed ?reg (store ! a) (store ! c) \<and> set_parent (store ! a) = Some c"
      by blast
  next
    fix a
    assume "a < length ms" "in_nesting_pass ?flag (ms ! a)"
      "\<forall>c<length ms. c \<noteq> a \<and> in_nesting_pass ?flag (ms ! c)
          \<longrightarrow> \<not> enclosed ?reg (store ! a) (store ! c)"
    then show "set_parent (store ! a) = None" by (rule none)
  next
    fix a b
    assume a: "a < length ms" "in_nesting_pass ?flag (ms ! a)"
      and b: "b < length ms" "in_nesting_pass ?flag (ms ! b)"
      and dis: "set (token_run ?reg (store ! a)) \<inter> set (token_run ?reg (store ! b)) = {}"
      and ne: "set_tokens (store ! a) \<noteq> []" "set_tokens (store ! b) \<noteq> []"
    from a dis ne(1) show "set_parent (store ! a) \<noteq> Some b" by (rule apart)
    from dis have "set (token_run ?reg (store ! b)) \<inter> set (token_run ?reg (store ! a)) = {}"
      by auto
    with b show "set_parent (store ! b) \<noteq> Some a" using ne(2) by (rule apart)
  next
    fix a b
    assume a: "a < length ms" "in_nesting_pass ?flag (ms ! a)"
      and b: "b < length ms" "in_nesting_pass ?flag (ms ! b)"
      and two: "\<forall>c<length ms. in_nesting_pass ?flag (ms ! c) \<longrightarrow> c = a \<or> c = b"
      and dis: "set (token_run ?reg (store ! a)) \<inter> set (token_run ?reg (store ! b)) = {}"
      and ne: "set_tokens (store ! a) \<noteq> []" "set_tokens (store ! b) \<noteq> []"
    from dis ne(1) have ab: "\<not> enclosed ?reg (store ! a) (store ! b)"
      by (rule disjoint_not_enclosed)
    from dis have "set (token_run ?reg (store ! b)) \<inter> set (token_run ?reg (store ! a)) = {}"
      by auto
    from this ne(2) have ba: "\<not> enclosed ?reg (store ! b) (store ! a)"
      by (rule disjoint_not_enclosed)
    have "\<forall>c<length ms. c \<noteq> a \<and> in_nesting_pass ?flag (ms ! c)
          \<longrightarrow> \<not> enclosed ?reg (store ! a) (store ! c)"
      using two ab by auto
    with a show "set_parent (store ! a) = None" by (rule none)
    have "\<forall>c<length ms. c \<noteq> b \<and> in_nesting_pass ?flag (ms ! c)
          \<longrightarrow> \<not> enclosed ?reg (store ! b) (store ! c)"
      using two ba by auto
    with b show "set_parent (store ! b) = None" by (rule none)
  qed
qed


theorem nesting_pass_over_organizations_witness:
  "set_parent (fst (projr (makeTokenSets pair_mark two_nested_document True)) ! 2) = None
   \<and> set_parent (fst (projr (makeTokenSets pair_mark two_nested_document True)) ! 0) = Some 1
   \<and> set_parent (fst (projr (makeTokenSets pair_mark nested_document True)) ! 0) \<noteq> None
   \<and> set_parent (fst (projr (makeTokenSets pair_mark third_document True)) ! 0) \<noteq> Some 1
   \<and> set_parent (fst (projr (makeTokenSets pair_mark third_document True)) ! 1) \<noteq> Some 0
   \<and> set_parent (fst (projr (makeTokenSets pair_mark third_document True)) ! 1) = None
   \<and> set_parent (fst (projr (makeTokenSets pair_mark two_apart_document True)) ! 0) = None
   \<and> set_parent (fst (projr (makeTokenSets pair_mark two_apart_document True)) ! 1) = None"
proof -
  let ?N = "projr (makeTokenSets pair_mark two_nested_document True)"
  let ?ns = "[mention_over 1 ''org'' [0], mention_over 2 ''locorg'' [0, 1],
              mention_over 3 ''per'' [0, 1, 2]]"
  have n: "mentions two_nested_document = Some ?ns"
    by (simp add: two_nested_document_def new_object_def)
  have "\<not> isl (makeTokenSets pair_mark two_nested_document True)" by code_simp
  then have neq: "makeTokenSets pair_mark two_nested_document True = Inr (fst ?N, snd ?N)"
    by simp
  note N = nesting_pass_over_organizations [OF n neq]
  have h1: "2 < length ?ns" "\<not> in_nesting_pass True (?ns ! 2)"
    by code_simp+
  from N [THEN conjunct1, rule_format, OF h1, THEN conjunct2]
  have 1: "set_parent (fst ?N ! 2) = None" .
  have h2: "0 < length ?ns \<and> 1 < length ?ns
      \<and> in_nesting_pass True (?ns ! 0) \<and> in_nesting_pass True (?ns ! 1)
      \<and> set (token_run (registry_of two_nested_document) (fst ?N ! 0))
          \<subset> set (token_run (registry_of two_nested_document) (fst ?N ! 1))
      \<and> (\<forall>c<length ?ns. c \<noteq> 0 \<and> c \<noteq> 1 \<and> in_nesting_pass True (?ns ! c)
            \<longrightarrow> \<not> enclosed (registry_of two_nested_document) (fst ?N ! 0) (fst ?N ! c))"
    by code_simp
  from N [THEN conjunct2, THEN conjunct1, rule_format, OF h2]
  have 2: "set_parent (fst ?N ! 0) = Some 1" .
  let ?C = "projr (makeTokenSets pair_mark nested_document True)"
  let ?cs = "[mention_over 1 ''org'' [0], mention_over 2 ''org'' [0, 1],
              mention_over 3 ''org'' [0, 1, 2]]"
  have c: "mentions nested_document = Some ?cs"
    by (simp add: nested_document_def new_object_def)
  have "\<not> isl (makeTokenSets pair_mark nested_document True)" by code_simp
  then have ceq: "makeTokenSets pair_mark nested_document True = Inr (fst ?C, snd ?C)"
    by simp
  note C = nesting_pass_over_organizations [OF c ceq]
  have h3: "0 < length ?cs \<and> in_nesting_pass True (?cs ! 0)
      \<and> (\<exists>c<length ?cs. c \<noteq> 0 \<and> in_nesting_pass True (?cs ! c)
            \<and> enclosed (registry_of nested_document) (fst ?C ! 0) (fst ?C ! c))"
    by code_simp
  from C [THEN conjunct2, THEN conjunct2, THEN conjunct1, rule_format, OF h3]
  have 3: "set_parent (fst ?C ! 0) \<noteq> None" by auto
  let ?T = "projr (makeTokenSets pair_mark third_document True)"
  let ?ts = "[mention_over 1 ''org'' [0], mention_over 2 ''org'' [2],
              mention_over 3 ''org'' [0, 1]]"
  have t: "mentions third_document = Some ?ts"
    by (simp add: third_document_def new_object_def)
  have "\<not> isl (makeTokenSets pair_mark third_document True)" by code_simp
  then have teq: "makeTokenSets pair_mark third_document True = Inr (fst ?T, snd ?T)"
    by simp
  note T = nesting_pass_over_organizations [OF t teq]
  have h4: "1 < length ?ts \<and> in_nesting_pass True (?ts ! 1)
      \<and> (\<forall>c<length ?ts. c \<noteq> 1 \<and> in_nesting_pass True (?ts ! c)
            \<longrightarrow> \<not> enclosed (registry_of third_document) (fst ?T ! 1) (fst ?T ! c))"
    by code_simp
  from T [THEN conjunct2, THEN conjunct2, THEN conjunct2, THEN conjunct1, rule_format, OF h4]
  have 4: "set_parent (fst ?T ! 1) = None" .
  have h5: "0 < length ?ts \<and> 1 < length ?ts
      \<and> in_nesting_pass True (?ts ! 0) \<and> in_nesting_pass True (?ts ! 1)
      \<and> set (token_run (registry_of third_document) (fst ?T ! 0))
          \<inter> set (token_run (registry_of third_document) (fst ?T ! 1)) = {}
      \<and> set_tokens (fst ?T ! 0) \<noteq> [] \<and> set_tokens (fst ?T ! 1) \<noteq> []"
    by code_simp
  from T [THEN conjunct2, THEN conjunct2, THEN conjunct2, THEN conjunct2, THEN conjunct1,
      rule_format, OF h5]
  have 5: "set_parent (fst ?T ! 0) \<noteq> Some 1 \<and> set_parent (fst ?T ! 1) \<noteq> Some 0" .
  let ?A = "projr (makeTokenSets pair_mark two_apart_document True)"
  let ?as = "[mention_over 1 ''org'' [0], mention_over 2 ''org'' [2]]"
  have a: "mentions two_apart_document = Some ?as"
    by (simp add: two_apart_document_def new_object_def)
  have "\<not> isl (makeTokenSets pair_mark two_apart_document True)" by code_simp
  then have aeq: "makeTokenSets pair_mark two_apart_document True = Inr (fst ?A, snd ?A)"
    by simp
  note A = nesting_pass_over_organizations [OF a aeq]
  have h6: "0 < length ?as \<and> 1 < length ?as
      \<and> (\<forall>c<length ?as. in_nesting_pass True (?as ! c) \<longrightarrow> c = 0 \<or> c = 1)
      \<and> in_nesting_pass True (?as ! 0) \<and> in_nesting_pass True (?as ! 1)
      \<and> set (token_run (registry_of two_apart_document) (fst ?A ! 0))
          \<inter> set (token_run (registry_of two_apart_document) (fst ?A ! 1)) = {}
      \<and> set_tokens (fst ?A ! 0) \<noteq> [] \<and> set_tokens (fst ?A ! 1) \<noteq> []"
    by code_simp
  from A [THEN conjunct2, THEN conjunct2, THEN conjunct2, THEN conjunct2, THEN conjunct2,
      rule_format, OF h6]
  have 6: "set_parent (fst ?A ! 0) = None \<and> set_parent (fst ?A ! 1) = None" .
  from 1 2 3 4 5 6 show ?thesis by simp
qed


text \<open>
  Claim C5, as stated, fails in four ways. The run of the first of three nested
  organizations is a strict subset of the runs of the second and of the third, and its
  one parent reference cannot hold both, whichever is chosen. Two organization token
  sets without a common token, the second lying in the gap of the first: the first is
  recorded as parent of the second. Two organizations with disjoint runs and a third
  around the first: the third is recorded as parent of the first. An organization
  without tokens beside another: its run is disjoint from the other's, every token of
  it lies within the other's run, and the other is recorded as its parent. In the last
  three there is one enclosing token set only, so no choice among candidates is
  involved.
\<close>

theorem nesting_claim_counterexample:
  "\<not> isl (makeTokenSets pair_mark nested_document True)
   \<and> set (token_run (registry_of nested_document)
            (fst (projr (makeTokenSets pair_mark nested_document True)) ! 0))
       \<subset> set (token_run (registry_of nested_document)
            (fst (projr (makeTokenSets pair_mark nested_document True)) ! 1))
   \<and> set (token_run (registry_of nested_document)
            (fst (projr (makeTokenSets pair_mark nested_document True)) ! 0))
       \<subset> set (token_run (registry_of nested_document)
            (fst (projr (makeTokenSets pair_mark nested_document True)) ! 2))
   \<and> \<not> (set_parent (fst (projr (makeTokenSets pair_mark nested_document True)) ! 0) = Some 1
        \<and> set_parent (fst (projr (makeTokenSets pair_mark nested_document True)) ! 0) = Some 2)
   \<and> \<not> isl (makeTokenSets pair_mark gap_document True)
   \<and> set (set_tokens (fst (projr (makeTokenSets pair_mark gap_document True)) ! 0))
       \<inter> set (set_tokens (fst (projr (makeTokenSets pair_mark gap_document True)) ! 1)) = {}
   \<and> set_parent (fst (projr (makeTokenSets pair_mark gap_document True)) ! 1) = Some 0
   \<and> \<not> isl (makeTokenSets pair_mark third_document True)
   \<and> set (token_run (registry_of third_document)
            (fst (projr (makeTokenSets pair_mark third_document True)) ! 0))
       \<inter> set (token_run (registry_of third_document)
            (fst (projr (makeTokenSets pair_mark third_document True)) ! 1)) = {}
   \<and> set_parent (fst (projr (makeTokenSets pair_mark third_document True)) ! 0) = Some 2
   \<and> \<not> isl (makeTokenSets pair_mark empty_run_document True)
   \<and> set (token_run (registry_of empty_run_document)
            (fst (projr (makeTokenSets pair_mark empty_run_document True)) ! 0))
       \<inter> set (token_run (registry_of empty_run_document)
            (fst (projr (makeTokenSets pair_mark empty_run_document True)) ! 1)) = {}
   \<and> set_parent (fst (projr (makeTokenSets pair_mark empty_run_document True)) ! 0) = Some 1"
  by code_simp

end
